theory Spec2Isabelle
  imports Main "HOL-Library.Signed_Division"
begin

section \<open>Go library functions the program calls\<close>

text \<open>
  The program is written in Go. Its own code is in \<^verbatim>\<open>esl/esl_client.go\<close>,
  \<^verbatim>\<open>api/server.go\<close> and \<^verbatim>\<open>store/store.go\<close>; it calls \<^verbatim>\<open>strconv\<close>, \<^verbatim>\<open>time\<close>,
  \<^verbatim>\<open>logrus\<close>, \<^verbatim>\<open>goesl\<close>, \<^verbatim>\<open>gin\<close>, \<^verbatim>\<open>pgx\<close> and the channel operations of the Go
  runtime. Those are modelled in this section, by what the Go implementation does.
  Go functions that return a value together with an \<^verbatim>\<open>error\<close> return a pair here,
  the second component \<open>None\<close> for \<^verbatim>\<open>nil\<close>.
\<close>

subsection \<open>Errors\<close>

datatype error =
    ErrSyntax
  | ErrRange
  | ErrESLNotConnected
  | LibError string

subsection \<open>strconv\<close>

text \<open>
  \<^verbatim>\<open>int\<close> has 64 bits on the platforms the program is built for (\<^verbatim>\<open>strconv.IntSize\<close>).
\<close>

definition IntSize :: nat where
  "IntSize = 64"

definition is_digit :: "char \<Rightarrow> bool" where
  "is_digit c = (48 \<le> (of_char c :: nat) \<and> (of_char c :: nat) \<le> 57)"

definition digit_val :: "char \<Rightarrow> nat" where
  "digit_val c = of_char c - 48"

text \<open>
  The digit loop of \<^verbatim>\<open>strconv.ParseUint\<close> in base 10, on \<^verbatim>\<open>uint64\<close>. A byte that is
  not a decimal digit is a syntax error (a letter is a digit value of 10 or more, which
  base 10 refuses as well). \<^verbatim>\<open>n >= cutoff\<close> is the test that \<^verbatim>\<open>n * 10\<close> would overflow;
  \<^verbatim>\<open>n1 < n || n1 > maxVal\<close> is the test on the sum, whose wrap-around is written out.
  On a range error the loop returns \<^verbatim>\<open>maxVal\<close> at once, whatever follows in the string.
\<close>

fun parseUint_loop :: "nat \<Rightarrow> nat \<Rightarrow> string \<Rightarrow> nat \<times> error option" where
  "parseUint_loop maxVal n [] = (n, None)"
| "parseUint_loop maxVal n (c # cs) =
     (if \<not> is_digit c then (0, Some ErrSyntax)
      else if n \<ge> (2 ^ 64 - 1) div 10 + 1 then (maxVal, Some ErrRange)
      else
        let n10 = n * 10;
            n1 = (n10 + digit_val c) mod 2 ^ 64
        in if n1 < n10 \<or> n1 > maxVal then (maxVal, Some ErrRange)
           else parseUint_loop maxVal n1 cs)"

definition ParseUint :: "string \<Rightarrow> nat \<Rightarrow> nat \<times> error option" where
  "ParseUint s bitSize =
     (if s = [] then (0, Some ErrSyntax)
      else
        let bits = (if bitSize = 0 then IntSize else bitSize)
        in if bits > 64 then (0, Some (LibError ''invalid bit size''))
           else parseUint_loop (2 ^ bits - 1) 0 s)"

text \<open>
  \<^verbatim>\<open>strconv.ParseInt(s, 10, bitSize)\<close>: an optional sign, then \<^verbatim>\<open>ParseUint\<close>, then the
  range check against \<^verbatim>\<open>cutoff = 1 << (bitSize-1)\<close>. A range error of \<^verbatim>\<open>ParseUint\<close>
  is not returned at once: the value it gave is checked against the cutoff.
\<close>

definition ParseInt :: "string \<Rightarrow> nat \<Rightarrow> int \<times> error option" where
  "ParseInt s bitSize =
     (case s of
        [] \<Rightarrow> (0, Some ErrSyntax)
      | c # cs \<Rightarrow>
          let neg = (c = CHR ''-'');
              s1 = (if c = CHR ''+'' \<or> c = CHR ''-'' then cs else s);
              (un, err) = ParseUint s1 bitSize
          in if err \<noteq> None \<and> err \<noteq> Some ErrRange then (0, err)
             else
               let bits = (if bitSize = 0 then IntSize else bitSize);
                   cutoff = (2 :: nat) ^ (bits - 1)
               in if \<not> neg \<and> un \<ge> cutoff then (int cutoff - 1, Some ErrRange)
                  else if neg \<and> un > cutoff then (- int cutoff, Some ErrRange)
                  else (if neg then - int un else int un, None))"

text \<open>\<^verbatim>\<open>strconv.Atoi(s)\<close> is \<^verbatim>\<open>ParseInt(s, 10, 0)\<close> converted to \<^verbatim>\<open>int\<close>.\<close>

definition Atoi :: "string \<Rightarrow> int \<times> error option" where
  "Atoi s = ParseInt s 0"

text \<open>
  \<^verbatim>\<open>strconv.Itoa\<close> writes the decimal digits of the magnitude, read from the digit
  table, after a minus sign for a negative number.
\<close>

fun digits :: "nat \<Rightarrow> string" where
  "digits n =
     (if n < 10 then [''0123456789'' ! n]
      else digits (n div 10) @ [''0123456789'' ! (n mod 10)])"

declare digits.simps [simp del]

definition Itoa :: "int \<Rightarrow> string" where
  "Itoa i = (if i < 0 then CHR ''-'' # digits (nat (- i)) else digits (nat i))"

subsection \<open>time\<close>

text \<open>
  A \<^verbatim>\<open>time.Time\<close> as the instant it denotes: whole seconds since the Unix epoch and
  the nanoseconds within the second. \<^verbatim>\<open>time.Unix(sec, nsec)\<close> accepts any \<^verbatim>\<open>nsec\<close>
  and normalises it into \<open>[0, 999999999]\<close>; the division is Go's, which truncates
  towards zero (\<open>sdiv\<close>).
\<close>

record Time =
  t_sec :: int
  t_nsec :: int

definition time_Unix :: "int \<Rightarrow> int \<Rightarrow> Time" where
  "time_Unix sec0 nsec0 =
     (if nsec0 < 0 \<or> nsec0 \<ge> 1000000000 then
        let n = nsec0 sdiv 1000000000;
            sec1 = sec0 + n;
            nsec1 = nsec0 - n * 1000000000
        in if nsec1 < 0 then \<lparr>t_sec = sec1 - 1, t_nsec = nsec1 + 1000000000\<rparr>
           else \<lparr>t_sec = sec1, t_nsec = nsec1\<rparr>
      else \<lparr>t_sec = sec0, t_nsec = nsec0\<rparr>)"

definition time_before :: "Time \<Rightarrow> Time \<Rightarrow> bool" where
  "time_before a b = (t_sec a < t_sec b \<or> (t_sec a = t_sec b \<and> t_nsec a < t_nsec b))"

subsection \<open>logrus\<close>

text \<open>
  The levels of logrus, most severe first. An entry is kept with its level and its
  message; the structured fields (\<^verbatim>\<open>WithField\<close>, \<^verbatim>\<open>WithError\<close>) are left out. A logger
  is the list of the entries written to it, oldest first.
\<close>

datatype Level =
    PanicLevel
  | FatalLevel
  | ErrorLevel
  | WarnLevel
  | InfoLevel
  | DebugLevel
  | TraceLevel

record Entry =
  Level :: Level
  Message :: string

definition Log :: "Level \<Rightarrow> string \<Rightarrow> Entry list \<Rightarrow> Entry list" where
  "Log l m logger = logger @ [\<lparr>Level = l, Message = m\<rparr>]"

text \<open>The numeric value logrus gives a level: 0 for Panic, up to 6 for Trace.\<close>

fun level_num :: "Level \<Rightarrow> nat" where
  "level_num PanicLevel = 0"
| "level_num FatalLevel = 1"
| "level_num ErrorLevel = 2"
| "level_num WarnLevel = 3"
| "level_num InfoLevel = 4"
| "level_num DebugLevel = 5"
| "level_num TraceLevel = 6"

subsection \<open>goesl messages\<close>

text \<open>
  A \<^verbatim>\<open>goesl.Message\<close> holds a map of headers; \<^verbatim>\<open>GetHeader\<close> is the map lookup, the
  empty string for a key that is not set.
\<close>

record Message =
  Headers :: "string \<rightharpoonup> string"
  Body :: string

definition GetHeader :: "Message \<Rightarrow> string \<Rightarrow> string" where
  "GetHeader m key = (case Headers m key of None \<Rightarrow> [] | Some v \<Rightarrow> v)"

subsection \<open>Channels\<close>

text \<open>
  A buffered channel of \<^verbatim>\<open>struct{}\<close>, as the runtime keeps it: \<open>dataqsiz\<close> is the
  capacity given to \<^verbatim>\<open>make\<close>, \<open>qcount\<close> the number of values in the buffer, \<open>sendq\<close> the
  goroutines parked in a send, first come first. \<^verbatim>\<open>ch <- v\<close> is a blocking send: with
  room in the buffer the value is stored, without room the sender parks until a receive
  makes room. A receive takes a value of the buffer; when a sender is parked, its value
  takes the freed slot and the sender runs again. A receive from an empty channel with
  no sender is not ready (\<open>None\<close>): the \<^verbatim>\<open>select\<close> case cannot fire.
\<close>

datatype goroutine =
    StartCaller
  | EventLoop
  | ReconnectionManager
  | Resignal nat

record hchan =
  qcount :: nat
  dataqsiz :: nat
  sendq :: "goroutine list"

definition make_chan :: "nat \<Rightarrow> hchan" where
  "make_chan n = \<lparr>qcount = 0, dataqsiz = n, sendq = []\<rparr>"

definition chansend :: "goroutine \<Rightarrow> hchan \<Rightarrow> hchan" where
  "chansend g ch =
     (if qcount ch < dataqsiz ch then ch\<lparr>qcount := qcount ch + 1\<rparr>
      else ch\<lparr>sendq := sendq ch @ [g]\<rparr>)"

definition chanrecv :: "hchan \<Rightarrow> hchan option" where
  "chanrecv ch =
     (case sendq ch of
        [] \<Rightarrow> if qcount ch = 0 then None else Some (ch\<lparr>qcount := qcount ch - 1\<rparr>)
      | g # gs \<Rightarrow> Some (ch\<lparr>sendq := gs\<rparr>))"

definition parked :: "goroutine \<Rightarrow> hchan \<Rightarrow> bool" where
  "parked g ch = (g \<in> set (sendq ch))"

subsection \<open>The database behind the pgx pool\<close>

text \<open>
  The table \<^verbatim>\<open>calls\<close> that \<^verbatim>\<open>InitSchema\<close> creates, and the three SQL statements of
  \<^verbatim>\<open>store.go\<close> by their SQL meaning. \<open>journal\<close> records every statement handed to the
  pool, in order, whether it succeeds or not: it is what this theory counts as the
  storage calls. \<open>fault\<close> is the error the pool answers a statement with when it cannot
  run it (a lost connection, the context's deadline); \<open>scan_fault\<close> and \<open>rows_fault\<close> are
  the errors of \<^verbatim>\<open>rows.Scan\<close> and \<^verbatim>\<open>rows.Err\<close>. \<open>serial\<close> is the sequence behind \<^verbatim>\<open>id\<close>, \<open>clock\<close>
  what \<^verbatim>\<open>now()\<close> returns.
\<close>

record Call =
  ID :: int
  UUID :: string
  Direction :: string
  Caller :: string
  Callee :: string
  StartTime :: Time
  EndTime :: "Time option"
  Status :: "string option"
  CreatedAt :: Time

datatype Statement =
    InsertCall string string string string Time
  | UpdateHangup Time string string
  | SelectCalls int int

record Pool =
  table :: "Call list"
  journal :: "Statement list"
  serial :: int
  clock :: Time
  fault :: "error option"
  scan_fault :: "error option"
  rows_fault :: "error option"

text \<open>
  \<^verbatim>\<open>INSERT INTO calls (uuid, direction, caller, callee, start_time) VALUES (...)
  RETURNING id, created_at\<close>; \<^verbatim>\<open>uuid\<close> is \<^verbatim>\<open>UNIQUE\<close>.
\<close>

definition pool_insert ::
  "Pool \<Rightarrow> string \<Rightarrow> string \<Rightarrow> string \<Rightarrow> string \<Rightarrow> Time \<Rightarrow> Pool \<times> (error + int \<times> Time)" where
  "pool_insert p uuid direction caller callee start =
     (let p1 = p\<lparr>journal := journal p @ [InsertCall uuid direction caller callee start]\<rparr>
      in case fault p of
           Some e \<Rightarrow> (p1, Inl e)
         | None \<Rightarrow>
             if list_ex (\<lambda>r. UUID r = uuid) (table p)
             then (p1\<lparr>serial := serial p + 1\<rparr>,
                   Inl (LibError ''duplicate key value violates unique constraint''))
             else (p1\<lparr>table := table p @
                      [\<lparr>ID = serial p, UUID = uuid, Direction = direction, Caller = caller,
                        Callee = callee, StartTime = start, EndTime = None, Status = None,
                        CreatedAt = clock p\<rparr>],
                      serial := serial p + 1\<rparr>,
                   Inr (serial p, clock p)))"

text \<open>
  \<^verbatim>\<open>UPDATE calls SET end_time = $1, status = $2 WHERE uuid = $3\<close>; the result is the
  number of rows affected.
\<close>

definition pool_update :: "Pool \<Rightarrow> Time \<Rightarrow> string \<Rightarrow> string \<Rightarrow> Pool \<times> (error + nat)" where
  "pool_update p endTime status uuid =
     (let p1 = p\<lparr>journal := journal p @ [UpdateHangup endTime status uuid]\<rparr>
      in case fault p of
           Some e \<Rightarrow> (p1, Inl e)
         | None \<Rightarrow>
             (p1\<lparr>table :=
                   map (\<lambda>r. if UUID r = uuid
                             then r\<lparr>EndTime := Some endTime, Status := Some status\<rparr> else r)
                       (table p)\<rparr>,
              Inr (length (filter (\<lambda>r. UUID r = uuid) (table p)))))"

text \<open>
  \<^verbatim>\<open>SELECT ... FROM calls ORDER BY start_time DESC LIMIT $1 OFFSET $2\<close>. PostgreSQL
  refuses a negative \<^verbatim>\<open>LIMIT\<close> or \<^verbatim>\<open>OFFSET\<close>. Rows with the same start time come in an
  order SQL leaves open; here the later row of the table comes first.
\<close>

fun insert_desc :: "Call \<Rightarrow> Call list \<Rightarrow> Call list" where
  "insert_desc x [] = [x]"
| "insert_desc x (y # ys) =
     (if time_before (StartTime x) (StartTime y) then y # insert_desc x ys else x # y # ys)"

definition order_by_start_desc :: "Call list \<Rightarrow> Call list" where
  "order_by_start_desc rs = foldl (\<lambda>acc r. insert_desc r acc) [] rs"

definition pool_select :: "Pool \<Rightarrow> int \<Rightarrow> int \<Rightarrow> Pool \<times> (error + Call list)" where
  "pool_select p limit offset =
     (let p1 = p\<lparr>journal := journal p @ [SelectCalls limit offset]\<rparr>
      in case fault p of
           Some e \<Rightarrow> (p1, Inl e)
         | None \<Rightarrow>
             if limit < 0 then (p1, Inl (LibError ''LIMIT must not be negative''))
             else if offset < 0 then (p1, Inl (LibError ''OFFSET must not be negative''))
             else (p1, Inr (take (nat limit) (drop (nat offset) (order_by_start_desc (table p))))))"

subsection \<open>Slices and JSON\<close>

text \<open>
  A Go slice is \<^verbatim>\<open>nil\<close> or holds elements; \<^verbatim>\<open>append\<close> to \<^verbatim>\<open>nil\<close> allocates.
  \<^verbatim>\<open>encoding/json\<close> writes a \<^verbatim>\<open>nil\<close> slice as \<^verbatim>\<open>null\<close> and any other slice as an array.
\<close>

datatype 'a slice =
    NilSlice
  | Slice "'a list"

fun append_slice :: "'a slice \<Rightarrow> 'a \<Rightarrow> 'a slice" where
  "append_slice NilSlice x = Slice [x]"
| "append_slice (Slice xs) x = Slice (xs @ [x])"

datatype JSON =
    JSONNull
  | JSONArray "Call list"
  | JSONObject "(string \<times> string) list"

fun json_Marshal_calls :: "Call slice \<Rightarrow> JSON" where
  "json_Marshal_calls NilSlice = JSONNull"
| "json_Marshal_calls (Slice cs) = JSONArray cs"

section \<open>store/store.go\<close>

record Store =
  db :: Pool
  log :: "Entry list"

definition NewStore :: "Pool \<Rightarrow> Entry list \<Rightarrow> Store" where
  "NewStore p logger = \<lparr>db = p, log = logger\<rparr>"

definition slog :: "Level \<Rightarrow> string \<Rightarrow> Store \<Rightarrow> Store" where
  "slog l m s = s\<lparr>Store.log := Log l m (Store.log s)\<rparr>"

text \<open>
  \<^verbatim>\<open>CreateCall\<close>: \<^verbatim>\<open>row.Scan(&call.ID, &call.CreatedAt)\<close> writes the returned id and
  creation time into the caller's record, or returns the error.
\<close>

definition CreateCall :: "Store \<Rightarrow> Call \<Rightarrow> Store \<times> Call \<times> error option" where
  "CreateCall s call =
     (case pool_insert (db s) (UUID call) (Direction call) (Caller call) (Callee call)
             (StartTime call) of
        (p, Inl err) \<Rightarrow> (slog ErrorLevel ''Error creating call record'' (s\<lparr>db := p\<rparr>), call, Some err)
      | (p, Inr (i, created)) \<Rightarrow>
          (slog InfoLevel ''Call record created'' (s\<lparr>db := p\<rparr>),
           call\<lparr>ID := i, CreatedAt := created\<rparr>, None))"

definition UpdateCallHangup :: "Store \<Rightarrow> string \<Rightarrow> Time \<Rightarrow> string \<Rightarrow> Store \<times> error option" where
  "UpdateCallHangup s uuid endTime status =
     (case pool_update (db s) endTime status uuid of
        (p, Inl err) \<Rightarrow>
          (slog ErrorLevel ''Error updating call record for hangup'' (s\<lparr>db := p\<rparr>), Some err)
      | (p, Inr rowsAffected) \<Rightarrow>
          let s1 = s\<lparr>db := p\<rparr>;
              s2 = (if rowsAffected = 0
                    then slog WarnLevel ''No call record found to update for hangup'' s1
                    else s1)
          in (slog InfoLevel ''Call record updated with hangup info'' s2, None))"

text \<open>
  \<^verbatim>\<open>GetCalls\<close>: \<^verbatim>\<open>var calls []Call\<close> starts \<^verbatim>\<open>nil\<close> and grows by \<^verbatim>\<open>append\<close>, one row at
  a time; a failing \<^verbatim>\<open>Scan\<close> stops at the first row.
\<close>

definition GetCalls :: "Store \<Rightarrow> int \<Rightarrow> int \<Rightarrow> Store \<times> Call slice \<times> error option" where
  "GetCalls s limit offset =
     (case pool_select (db s) limit offset of
        (p, Inl err) \<Rightarrow> (slog ErrorLevel ''Error getting calls'' (s\<lparr>db := p\<rparr>), NilSlice, Some err)
      | (p, Inr rs) \<Rightarrow>
          let s1 = s\<lparr>db := p\<rparr>
          in if rs \<noteq> [] \<and> scan_fault p \<noteq> None
             then (slog ErrorLevel ''Error scanning call row'' s1, NilSlice, scan_fault p)
             else
               let calls = foldl append_slice NilSlice rs
               in if rows_fault p \<noteq> None
                  then (slog ErrorLevel ''Error iterating call rows'' s1, NilSlice, rows_fault p)
                  else (slog InfoLevel ''Retrieved calls'' s1, calls, None))"

section \<open>esl/esl_client.go\<close>

text \<open>
  What lies outside the program, for one call each: \<^verbatim>\<open>net.SplitHostPort\<close>, the dial of
  \<^verbatim>\<open>goesl.NewClient\<close> (which answers with a connection handle), and \<^verbatim>\<open>Send\<close> and \<^verbatim>\<open>Close\<close>
  on a connection.
\<close>

record Env =
  SplitHostPort :: "string \<Rightarrow> error + string \<times> string"
  goesl_NewClient :: "string \<Rightarrow> nat \<Rightarrow> string \<Rightarrow> nat \<Rightarrow> error + nat"
  conn_Send :: "nat \<Rightarrow> string \<Rightarrow> error option"
  conn_Close :: "nat \<Rightarrow> error option"

record Client =
  conn :: "nat option"
  log :: "Entry list"
  store :: Store
  addr :: string
  pass :: string
  reconnect :: hchan

text \<open>The goroutines a function starts with \<^verbatim>\<open>go\<close>; they run after it, on their own.\<close>

datatype go_stmt =
    Go_eventLoop
  | Go_reconnectionManager
  | Go_handleEvent Message
  | Go_sleep_then_signal nat

definition NewClient :: "string \<Rightarrow> string \<Rightarrow> Store \<Rightarrow> Entry list \<Rightarrow> Client" where
  "NewClient a p s logger =
     \<lparr>conn = None, log = logger, store = s, addr = a, pass = p, reconnect = make_chan 1\<rparr>"

definition clog :: "Level \<Rightarrow> string \<Rightarrow> Client \<Rightarrow> Client" where
  "clog l m c = c\<lparr>Client.log := Log l m (Client.log c)\<rparr>"

text \<open>\<^verbatim>\<open>c.reconnect <- struct{}{}\<close>, executed by goroutine \<open>g\<close>.\<close>

definition signal_reconnect :: "goroutine \<Rightarrow> Client \<Rightarrow> Client" where
  "signal_reconnect g c = c\<lparr>reconnect := chansend g (reconnect c)\<rparr>"

text \<open>
  \<^verbatim>\<open>connect\<close> makes one attempt. \<^verbatim>\<open>go client.Handle()\<close>, the reader that goesl runs
  behind a new connection, is part of what \<^verbatim>\<open>ReadMessage\<close> returns later and has no
  counterpart here.
\<close>

definition connect :: "Env \<Rightarrow> Client \<Rightarrow> Client \<times> error option" where
  "connect env c =
     (case SplitHostPort env (addr c) of
        Inl err \<Rightarrow> (clog ErrorLevel ''Invalid ESL_ADDR format. Expected host:port'' c, Some err)
      | Inr (host, portStr) \<Rightarrow>
          (case ParseUint portStr 16 of
             (port, Some err) \<Rightarrow> (clog ErrorLevel ''Invalid ESL_PORT in ESL_ADDR.'' c, Some err)
           | (port, None) \<Rightarrow>
               (case goesl_NewClient env host port (pass c) 10 of
                  Inl err \<Rightarrow> (clog ErrorLevel ''Failed to connect to FreeSWITCH ESL'' c, Some err)
                | Inr client \<Rightarrow>
                    (clog InfoLevel ''Successfully connected to FreeSWITCH ESL and started handler''
                       (c\<lparr>conn := Some client\<rparr>),
                     None))))"

definition subscribeToEvents :: "Env \<Rightarrow> Client \<Rightarrow> Client \<times> error option" where
  "subscribeToEvents env c =
     (case conn c of
        None \<Rightarrow> (c, Some ErrESLNotConnected)
      | Some h \<Rightarrow>
          (case conn_Send env h ''event json ALL'' of
             Some err \<Rightarrow>
               (clog ErrorLevel ''Failed to send event subscription command to ESL'' c, Some err)
           | None \<Rightarrow> (clog InfoLevel ''Subscribed to ALL ESL events (debug mode)'' c, None)))"

definition Start :: "Env \<Rightarrow> Client \<Rightarrow> Client \<times> go_stmt list \<times> error option" where
  "Start env c =
     (let c0 = clog InfoLevel ''Starting ESL client...'' c;
          c3 = (case connect env c0 of
                  (c1, Some err) \<Rightarrow>
                    signal_reconnect StartCaller
                      (clog ErrorLevel ''Initial ESL connection failed. Will retry in background.'' c1)
                | (c1, None) \<Rightarrow>
                    (case subscribeToEvents env c1 of
                       (c2, Some err) \<Rightarrow>
                         signal_reconnect StartCaller
                           (clog ErrorLevel
                              ''Failed to subscribe to ESL events after initial connection'' c2)
                     | (c2, None) \<Rightarrow> c2))
      in (c3, [Go_eventLoop, Go_reconnectionManager], None))"

text \<open>
  The \<^verbatim>\<open>select\<close> of \<^verbatim>\<open>reconnectionManager\<close>, one function per case. The case
  \<^verbatim>\<open><-c.reconnect\<close> fires only when the receive is ready, and no case fires while the
  manager itself is parked in a send (\<open>None\<close>). The sleeping goroutine of a failed
  attempt is returned as \<open>Go_sleep_then_signal 5\<close>: it sends after 5 seconds, as one of
  the goroutines \<open>Resignal k\<close>. The error of \<^verbatim>\<open>c.conn.Close()\<close> on the stale handle is
  ignored by the code, so the call leaves no trace here but the cleared handle.
\<close>

definition reconnectionManager_on_reconnect :: "Env \<Rightarrow> Client \<Rightarrow> (Client \<times> go_stmt list) option" where
  "reconnectionManager_on_reconnect env c =
     (if parked ReconnectionManager (reconnect c) then None
      else case chanrecv (reconnect c) of
        None \<Rightarrow> None
      | Some ch \<Rightarrow>
          (let c1 = clog InfoLevel ''Attempting to reconnect to ESL...'' (c\<lparr>reconnect := ch\<rparr>);
               c2 = (case conn c1 of Some h \<Rightarrow> c1\<lparr>conn := None\<rparr> | None \<Rightarrow> c1)
           in (case connect env c2 of
                 (c3, Some err) \<Rightarrow>
                   Some (clog ErrorLevel ''ESL reconnection attempt failed. Will retry.'' c3,
                         [Go_sleep_then_signal 5])
               | (c3, None) \<Rightarrow>
                   (let c4 = clog InfoLevel ''ESL reconnected successfully.'' c3
                    in (case subscribeToEvents env c4 of
                          (c5, Some err) \<Rightarrow>
                            Some (signal_reconnect ReconnectionManager
                                    (clog ErrorLevel
                                       ''Failed to subscribe to ESL events after reconnection'' c5),
                                  [])
                        | (c5, None) \<Rightarrow> Some (c5, []))))))"

definition reconnectionManager_on_tick :: "Client \<Rightarrow> Client option" where
  "reconnectionManager_on_tick c =
     (if parked ReconnectionManager (reconnect c) then None
      else if conn c = None
      then Some (signal_reconnect ReconnectionManager
                   (clog WarnLevel ''ESL connection is nil, triggering reconnect.'' c))
      else Some c)"

definition reconnectionManager_on_done :: "Client \<Rightarrow> Client" where
  "reconnectionManager_on_done c =
     clog InfoLevel ''Reconnection manager stopping due to context cancellation.'' c"

text \<open>
  One pass of the \<^verbatim>\<open>default\<close> branch of \<^verbatim>\<open>eventLoop\<close>, given what \<^verbatim>\<open>ReadMessage\<close> returns.
  The loop is one goroutine: while it is parked in its send it makes no further pass.
  A message is handed to \<^verbatim>\<open>go c.handleEvent\<close>.
\<close>

datatype read =
    ReadError error
  | ReadNil
  | ReadMessage Message

definition eventLoop_pass :: "read \<Rightarrow> Client \<Rightarrow> Client \<times> go_stmt list" where
  "eventLoop_pass r c =
     (if parked EventLoop (reconnect c) then (c, [])
      else if conn c = None
      then (clog WarnLevel ''ESL connection not available, pausing event processing.'' c, [])
      else case r of
             ReadError err \<Rightarrow>
               (signal_reconnect EventLoop (clog ErrorLevel ''Error reading ESL message'' c), [])
           | ReadNil \<Rightarrow> (c, [])
           | ReadMessage msg \<Rightarrow> (c, [Go_handleEvent msg]))"

text \<open>\<open>n\<close> passes of the loop in a row, each with a failing read and no receive between.\<close>

fun read_failures :: "nat \<Rightarrow> error \<Rightarrow> Client \<Rightarrow> Client" where
  "read_failures 0 err c = c"
| "read_failures (Suc n) err c = read_failures n err (fst (eventLoop_pass (ReadError err) c))"

definition handleChannelCreate :: "Client \<Rightarrow> Message \<Rightarrow> string \<Rightarrow> Client" where
  "handleChannelCreate c msg uuid =
     (let c1 = clog InfoLevel ''Handling CHANNEL_CREATE event'' c;
          startTimeStr = GetHeader msg ''Event-Date-Timestamp''
      in if startTimeStr = []
         then clog ErrorLevel ''Event-Date-Timestamp is missing for CHANNEL_CREATE'' c1
         else
           let (startTimeUnix, err) = ParseInt startTimeStr 64
           in if err \<noteq> None
              then clog ErrorLevel ''Failed to parse start time for CHANNEL_CREATE'' c1
              else
                let call = \<lparr>ID = 0, UUID = uuid,
                            Direction = GetHeader msg ''Call-Direction'',
                            Caller = GetHeader msg ''Caller-Caller-ID-Number'',
                            Callee = GetHeader msg ''Caller-Destination-Number'',
                            StartTime = time_Unix (startTimeUnix sdiv 1000000)
                                          ((startTimeUnix smod 1000000) * 1000),
                            EndTime = None, Status = None,
                            CreatedAt = \<lparr>t_sec = 0, t_nsec = 0\<rparr>\<rparr>;
                    c2 = clog InfoLevel ''Parsed call data for CHANNEL_CREATE'' c1;
                    (st, call1, err1) = CreateCall (Client.store c2) call;
                    c3 = c2\<lparr>Client.store := st\<rparr>
                in if err1 \<noteq> None
                   then clog ErrorLevel ''Failed to create call record from CHANNEL_CREATE'' c3
                   else clog InfoLevel ''Successfully created call record from CHANNEL_CREATE'' c3)"

definition handleChannelHangup :: "Client \<Rightarrow> Message \<Rightarrow> string \<Rightarrow> Client" where
  "handleChannelHangup c msg uuid =
     (let c1 = clog InfoLevel ''Handling CHANNEL_HANGUP event'' c;
          hangupTimeStr = GetHeader msg ''Event-Date-Timestamp''
      in if hangupTimeStr = []
         then clog ErrorLevel ''Event-Date-Timestamp is missing for CHANNEL_HANGUP'' c1
         else
           let (hangupTimeUnix, err) = ParseInt hangupTimeStr 64
           in if err \<noteq> None
              then clog ErrorLevel ''Failed to parse hangup time for CHANNEL_HANGUP'' c1
              else
                let endTime = time_Unix (hangupTimeUnix sdiv 1000000)
                                ((hangupTimeUnix smod 1000000) * 1000);
                    status = GetHeader msg ''Hangup-Cause'';
                    c2 = clog InfoLevel ''Parsed hangup data for CHANNEL_HANGUP'' c1;
                    (st, err1) = UpdateCallHangup (Client.store c2) uuid endTime status;
                    c3 = c2\<lparr>Client.store := st\<rparr>
                in if err1 \<noteq> None
                   then clog ErrorLevel ''Failed to update call record from CHANNEL_HANGUP'' c3
                   else clog InfoLevel ''Successfully updated call record from CHANNEL_HANGUP'' c3)"

definition handleEvent :: "Client \<Rightarrow> Message \<Rightarrow> Client" where
  "handleEvent c msg =
     (let eventName = GetHeader msg ''Event-Name'';
          uuid = GetHeader msg ''Unique-ID''
      in if uuid = []
         then (if eventName = ''CHANNEL_CREATE'' \<or> eventName = ''CHANNEL_HANGUP''
               then clog InfoLevel ''Received relevant event with no Unique-ID, skipping'' c
               else c)
         else
           let c1 = (if eventName = ''CHANNEL_CREATE'' \<or> eventName = ''CHANNEL_HANGUP''
                     then clog InfoLevel ''Attempting to process ESL event'' c
                     else c)
           in if eventName = ''CHANNEL_CREATE'' then handleChannelCreate c1 msg uuid
              else if eventName = ''CHANNEL_HANGUP'' then handleChannelHangup c1 msg uuid
              else c1)"

definition Close :: "Env \<Rightarrow> Client \<Rightarrow> Client \<times> error option" where
  "Close env c =
     (let c1 = clog InfoLevel ''Closing ESL client connection...'' c
      in case conn c1 of
           Some h \<Rightarrow> (c1, conn_Close env h)
         | None \<Rightarrow>
             (clog InfoLevel ''ESL connection already closed or not established.'' c1, None))"

section \<open>api/server.go\<close>

definition defaultLimit :: int where
  "defaultLimit = 10"

definition maxLimit :: int where
  "maxLimit = 100"

definition defaultOffset :: int where
  "defaultOffset = 0"

text \<open>
  The query string of a request as gin reads it: \<^verbatim>\<open>DefaultQuery\<close> returns the first
  value of a key that is present, also an empty one, and the default otherwise.
\<close>

type_synonym Query = "string \<rightharpoonup> string"

definition DefaultQuery :: "Query \<Rightarrow> string \<Rightarrow> string \<Rightarrow> string" where
  "DefaultQuery q key defaultValue = (case q key of Some v \<Rightarrow> v | None \<Rightarrow> defaultValue)"

record Response =
  code :: nat
  body :: JSON

record Server =
  store :: Store
  log :: "Entry list"

definition srvlog :: "Level \<Rightarrow> string \<Rightarrow> Server \<Rightarrow> Server" where
  "srvlog l m s = s\<lparr>Server.log := Log l m (Server.log s)\<rparr>"

definition getCallsHandler :: "Server \<Rightarrow> Query \<Rightarrow> Server \<times> Response" where
  "getCallsHandler s q =
     (let limitStr = DefaultQuery q ''limit'' (Itoa defaultLimit);
          offsetStr = DefaultQuery q ''offset'' (Itoa defaultOffset);
          (limit0, err) = Atoi limitStr;
          (limit, s1) = (if err \<noteq> None \<or> limit0 \<le> 0 \<or> limit0 > maxLimit
                         then (defaultLimit,
                               srvlog WarnLevel
                                 (''Invalid limit value '' @ CHR 0x27 # limitStr @
                                  CHR 0x27 # '', using default '' @ Itoa defaultLimit) s)
                         else (limit0, s));
          (offset0, err1) = Atoi offsetStr;
          (offset, s2) = (if err1 \<noteq> None \<or> offset0 < 0
                          then (defaultOffset,
                                srvlog WarnLevel
                                  (''Invalid offset value '' @ CHR 0x27 # offsetStr @
                                   CHR 0x27 # '', using default '' @ Itoa defaultOffset) s1)
                          else (offset0, s1));
          (st, calls, err2) = GetCalls (Server.store s2) limit offset;
          s3 = s2\<lparr>Server.store := st\<rparr>
      in if err2 \<noteq> None
         then (srvlog ErrorLevel ''Error retrieving calls from store'' s3,
               \<lparr>code = 500, body = JSONObject [(''error'', ''Failed to retrieve calls'')]\<rparr>)
         else
           let calls1 = (if calls = NilSlice then Slice [] else calls)
           in (s3, \<lparr>code = 200, body = json_Marshal_calls calls1\<rparr>))"

section \<open>The words of the specification\<close>

text \<open>
  The notions the specification uses and the code does not name. A decimal numeral is
  a non-empty string of decimal digits, read in base 10 without bound; an integer
  literal is a decimal numeral with an optional sign in front.
\<close>

definition decimal_step :: "nat \<Rightarrow> char \<Rightarrow> nat" where
  "decimal_step a c = a * 10 + digit_val c"

definition decimal :: "string \<Rightarrow> nat option" where
  "decimal s =
     (if s \<noteq> [] \<and> list_all is_digit s then Some (foldl decimal_step 0 s) else None)"

definition int_literal :: "string \<Rightarrow> int option" where
  "int_literal s =
     (case s of
        [] \<Rightarrow> None
      | c # cs \<Rightarrow>
          if c = CHR ''+'' then map_option int (decimal cs)
          else if c = CHR ''-'' then map_option (\<lambda>n. - int n) (decimal cs)
          else map_option int (decimal s))"

text \<open>
  An elevated severity is a level more severe than the informational one: Warn, Error,
  Fatal or Panic.
\<close>

definition elevated :: "Level \<Rightarrow> bool" where
  "elevated l = (level_num l < level_num InfoLevel)"

text \<open>
  The paging a request asks for: the integer a query parameter is, when it is present
  and an integer literal; the limit when it lies in \<open>[1, 100]\<close> and 10 otherwise; the
  offset when it is not negative and 0 otherwise.
\<close>

definition query_int :: "Query \<Rightarrow> string \<Rightarrow> int option" where
  "query_int q key = (case q key of None \<Rightarrow> None | Some v \<Rightarrow> int_literal v)"

definition asked_limit :: "Query \<Rightarrow> int" where
  "asked_limit q =
     (case query_int q ''limit'' of
        Some v \<Rightarrow> if 1 \<le> v \<and> v \<le> 100 then v else 10
      | None \<Rightarrow> 10)"

definition asked_offset :: "Query \<Rightarrow> int" where
  "asked_offset q =
     (case query_int q ''offset'' of
        Some v \<Rightarrow> if 0 \<le> v then v else 0
      | None \<Rightarrow> 0)"

text \<open>
  A history of the reconnect channel: posts by goroutines and receives by the manager,
  in the order they happen. Running a history counts the receives that got a signal.
\<close>

datatype chan_op =
    is_Post: Post goroutine
  | Receive

fun chan_apply :: "hchan \<times> nat \<Rightarrow> chan_op \<Rightarrow> hchan \<times> nat" where
  "chan_apply (ch, received) (Post g) = (chansend g ch, received)"
| "chan_apply (ch, received) Receive =
     (case chanrecv ch of None \<Rightarrow> (ch, received) | Some ch1 \<Rightarrow> (ch1, Suc received))"

definition run_ops :: "chan_op list \<Rightarrow> hchan \<Rightarrow> hchan \<times> nat" where
  "run_ops ops ch = foldl chan_apply (ch, 0) ops"

definition posts :: "chan_op list \<Rightarrow> nat" where
  "posts ops = length (filter is_Post ops)"

text \<open>
  What holds of a channel at all times: the buffer is never over its capacity, and a
  sender is parked only while the buffer is full. The signals outstanding are those in
  the buffer and those of the parked senders.
\<close>

definition chan_inv :: "hchan \<Rightarrow> bool" where
  "chan_inv ch = (qcount ch \<le> dataqsiz ch \<and> (sendq ch = [] \<or> qcount ch = dataqsiz ch))"

definition outstanding :: "hchan \<Rightarrow> nat" where
  "outstanding ch = qcount ch + length (sendq ch)"

section \<open>Example inputs\<close>

definition empty_Pool :: Pool where
  "empty_Pool =
     \<lparr>table = [], journal = [], serial = 1, clock = \<lparr>t_sec = 0, t_nsec = 0\<rparr>,
      fault = None, scan_fault = None, rows_fault = None\<rparr>"

definition one_call_Pool :: Pool where
  "one_call_Pool =
     empty_Pool\<lparr>table :=
       [\<lparr>ID = 1, UUID = ''abc'', Direction = ''inbound'', Caller = ''+1'', Callee = ''+2'',
         StartTime = \<lparr>t_sec = 1, t_nsec = 0\<rparr>, EndTime = None, Status = None,
         CreatedAt = \<lparr>t_sec = 1, t_nsec = 0\<rparr>\<rparr>],
       serial := 2\<rparr>"

definition fresh_Client :: Client where
  "fresh_Client = NewClient ''127.0.0.1:8021'' ''ClueCon'' (NewStore empty_Pool []) []"

definition one_call_Client :: Client where
  "one_call_Client = NewClient ''127.0.0.1:8021'' ''ClueCon'' (NewStore one_call_Pool []) []"

definition connected_Client :: Client where
  "connected_Client = fresh_Client\<lparr>conn := Some 7\<rparr>"

definition event :: "(string \<times> string) list \<Rightarrow> Message" where
  "event hs = \<lparr>Headers = map_of hs, Body = []\<rparr>"

text \<open>A peer that refuses the connection, and one that accepts it and refuses the subscription.\<close>

definition peer_unreachable :: Env where
  "peer_unreachable =
     \<lparr>SplitHostPort = (\<lambda>a. Inr (''127.0.0.1'', ''8021'')),
      goesl_NewClient = (\<lambda>host port pw timeout. Inl (LibError ''connection refused'')),
      conn_Send = (\<lambda>h cmd. None),
      conn_Close = (\<lambda>h. None)\<rparr>"

definition peer_refusing_subscription :: Env where
  "peer_refusing_subscription =
     \<lparr>SplitHostPort = (\<lambda>a. Inr (''127.0.0.1'', ''8021'')),
      goesl_NewClient = (\<lambda>host port pw timeout. Inr 8),
      conn_Send = (\<lambda>h cmd. Some (LibError ''broken pipe'')),
      conn_Close = (\<lambda>h. None)\<rparr>"

definition fresh_Server :: Server where
  "fresh_Server = \<lparr>store = NewStore empty_Pool [], log = []\<rparr>"

section \<open>Properties of the library functions\<close>

subsection \<open>What strconv accepts\<close>

lemma digit_val_le: "is_digit c \<Longrightarrow> digit_val c \<le> 9"
  unfolding is_digit_def digit_val_def by arith

lemma foldl_decimal_step_ge: "n \<le> foldl decimal_step n cs"
proof (induction cs arbitrary: n)
  case Nil
  show ?case by simp
next
  case (Cons c cs)
  have "n \<le> decimal_step n c" by (simp add: decimal_step_def)
  also have "\<dots> \<le> foldl decimal_step (decimal_step n c) cs" by (rule Cons.IH)
  finally show ?case by simp
qed

lemma parseUint_loop_digits:
  assumes "list_all is_digit cs" and "n \<le> maxVal" and "maxVal < 2 ^ 64"
  shows "parseUint_loop maxVal n cs =
           (if foldl decimal_step n cs \<le> maxVal then (foldl decimal_step n cs, None)
            else (maxVal, Some ErrRange))"
  using assms
proof (induction cs arbitrary: n)
  case Nil
  then show ?case by simp
next
  case (Cons c cs)
  from Cons.prems have dc: "is_digit c" and rest: "list_all is_digit cs" by simp_all
  have d9: "digit_val c \<le> 9" using dc by (rule digit_val_le)
  define m where "m = n * 10 + digit_val c"
  have step: "decimal_step n c = m" by (simp add: decimal_step_def m_def)
  have mono: "m \<le> foldl decimal_step m cs" by (rule foldl_decimal_step_ge)
  have mv: "maxVal < 18446744073709551616" using Cons.prems(3) by simp
  have unfold: "parseUint_loop maxVal n (c # cs) =
      (if n \<ge> 1844674407370955162 then (maxVal, Some ErrRange)
       else if m mod 18446744073709551616 < n * 10 \<or> m mod 18446744073709551616 > maxVal
            then (maxVal, Some ErrRange)
            else parseUint_loop maxVal (m mod 18446744073709551616) cs)"
    using dc by (simp add: Let_def m_def)
  have fold: "foldl decimal_step n (c # cs) = foldl decimal_step m cs"
    by (simp add: step)
  show ?case
  proof (cases "n \<ge> 1844674407370955162")
    case True
    then have "m > maxVal" using mv unfolding m_def by linarith
    then have "\<not> foldl decimal_step m cs \<le> maxVal" using mono by linarith
    then show ?thesis using True by (simp only: unfold fold if_True if_False)
  next
    case small: False
    show ?thesis
    proof (cases "m \<ge> 18446744073709551616")
      case True
      then have gt: "\<not> foldl decimal_step m cs \<le> maxVal" using mono mv by linarith
      have "m < 2 * 18446744073709551616" using small d9 unfolding m_def by linarith
      then have "m mod 18446744073709551616 = m - 18446744073709551616"
        using True by (simp add: mod_if)
      then have "m mod 18446744073709551616 < n * 10" using d9 True unfolding m_def by linarith
      then show ?thesis using small gt by (simp only: unfold fold if_True if_False simp_thms)
    next
      case nowrap: False
      then have m: "m mod 18446744073709551616 = m" by simp
      have ge: "\<not> m < n * 10" unfolding m_def by simp
      show ?thesis
      proof (cases "m > maxVal")
        case True
        then have "\<not> foldl decimal_step m cs \<le> maxVal" using mono by linarith
        then show ?thesis using small True ge
          by (simp only: unfold fold m if_True if_False simp_thms)
      next
        case False
        then have le: "m \<le> maxVal" by simp
        have "parseUint_loop maxVal m cs =
           (if foldl decimal_step m cs \<le> maxVal then (foldl decimal_step m cs, None)
            else (maxVal, Some ErrRange))"
          by (rule Cons.IH [OF rest le Cons.prems(3)])
        then show ?thesis using small False ge
          by (simp only: unfold fold m if_True if_False simp_thms)
      qed
    qed
  qed
qed

lemma parseUint_loop_not_digits:
  "\<not> list_all is_digit cs \<Longrightarrow> snd (parseUint_loop maxVal n cs) \<noteq> None"
  by (induction cs arbitrary: n) (auto simp: Let_def)


lemma parseUint_loop_error:
  "parseUint_loop maxVal n cs = (v, Some e) \<Longrightarrow>
     (e = ErrSyntax \<and> v = 0) \<or> (e = ErrRange \<and> v = maxVal)"
  by (induction cs arbitrary: n) (auto simp: Let_def split: if_splits)

lemma ParseUint_decimal:
  assumes "decimal s = Some n" and "bitSize = 64 \<or> bitSize = 0"
  shows "ParseUint s bitSize =
           (if n < 2 ^ 64 then (n, None) else (2 ^ 64 - 1, Some ErrRange))"
proof -
  from assms(1) have ne: "s \<noteq> []" and ds: "list_all is_digit s"
    and n: "n = foldl decimal_step 0 s"
    by (auto simp: decimal_def split: if_splits)
  have "parseUint_loop (2 ^ 64 - 1) 0 s =
          (if foldl decimal_step 0 s \<le> 2 ^ 64 - 1 then (foldl decimal_step 0 s, None)
           else (2 ^ 64 - 1, Some ErrRange))"
    by (rule parseUint_loop_digits [OF ds]) simp_all
  moreover have "(n \<le> 2 ^ 64 - 1) = (n < 2 ^ 64)" by auto
  ultimately show ?thesis
    using ne assms(2) n by (auto simp: ParseUint_def IntSize_def Let_def)
qed

lemma ParseUint_not_decimal:
  assumes "decimal s = None" and "bitSize = 64 \<or> bitSize = 0"
  shows "ParseUint s bitSize = (0, Some ErrSyntax) \<or>
         ParseUint s bitSize = (2 ^ 64 - 1, Some ErrRange)"
proof (cases "s = []")
  case True
  then show ?thesis by (simp add: ParseUint_def)
next
  case False
  with assms(1) have nd: "\<not> list_all is_digit s"
    by (auto simp: decimal_def split: if_splits)
  obtain v e where r: "parseUint_loop (2 ^ 64 - 1) 0 s = (v, e)"
    by (cases "parseUint_loop (2 ^ 64 - 1) 0 s") auto
  from parseUint_loop_not_digits [OF nd, of "2 ^ 64 - 1" 0] r obtain e' where e: "e = Some e'"
    by auto
  from parseUint_loop_error [of "2 ^ 64 - 1" 0 s v e'] r e
  have "(e' = ErrSyntax \<and> v = 0) \<or> (e' = ErrRange \<and> v = 2 ^ 64 - 1)" by simp
  then show ?thesis
    using False assms(2) r e by (auto simp: ParseUint_def IntSize_def Let_def)
qed

lemma ParseInt_literal:
  assumes "int_literal s = Some v" and "bitSize = 64 \<or> bitSize = 0"
  shows "ParseInt s bitSize =
           (if v < - (2 ^ 63) then (- (2 ^ 63), Some ErrRange)
            else if 2 ^ 63 \<le> v then (2 ^ 63 - 1, Some ErrRange)
            else (v, None))"
proof -
  from assms(1) obtain c cs where s: "s = c # cs"
    by (cases s) (auto simp: int_literal_def)
  show ?thesis
  proof (cases "c = CHR ''+''")
    case True
    with assms(1) s obtain n where d: "decimal cs = Some n" and v: "v = int n"
      by (auto simp: int_literal_def)
    show ?thesis
      using ParseUint_decimal [OF d assms(2)] True s v assms(2)
      by (auto simp: ParseInt_def Let_def IntSize_def)
  next
    case notplus: False
    show ?thesis
    proof (cases "c = CHR ''-''")
      case True
      with assms(1) s obtain n where d: "decimal cs = Some n" and v: "v = - int n"
        by (auto simp: int_literal_def)
      show ?thesis
        using ParseUint_decimal [OF d assms(2)] True s v assms(2)
        by (auto simp: ParseInt_def Let_def IntSize_def)
    next
      case False
      with notplus assms(1) s obtain n where d: "decimal (c # cs) = Some n" and v: "v = int n"
        by (auto simp: int_literal_def)
      show ?thesis
        using ParseUint_decimal [OF d assms(2)] False notplus s v assms(2)
        by (auto simp: ParseInt_def Let_def IntSize_def)
    qed
  qed
qed

lemma ParseInt_not_literal:
  assumes "int_literal s = None" and "bitSize = 64 \<or> bitSize = 0"
  shows "snd (ParseInt s bitSize) \<noteq> None"
proof (cases s)
  case Nil
  then show ?thesis by (simp add: ParseInt_def)
next
  case (Cons c cs)
  define s1 where "s1 = (if c = CHR ''+'' \<or> c = CHR ''-'' then cs else s)"
  from assms(1) Cons have d: "decimal s1 = None"
    by (auto simp: int_literal_def s1_def split: if_splits)
  from ParseUint_not_decimal [OF d assms(2)]
  show ?thesis
    using Cons assms(2) by (auto simp: ParseInt_def Let_def IntSize_def s1_def)
qed

subsection \<open>Microseconds to a time\<close>

lemma go_div_rem_micro:
  fixes ts :: int
  shows "ts \<ge> 0 \<or> 1000000 dvd ts \<Longrightarrow> ts sdiv 1000000 = ts div 1000000 \<and> ts smod 1000000 = ts mod 1000000"
    and "ts < 0 \<Longrightarrow> \<not> 1000000 dvd ts \<Longrightarrow>
           ts sdiv 1000000 = ts div 1000000 + 1 \<and> ts smod 1000000 = ts mod 1000000 - 1000000"
  by (auto simp: signed_divide_int_eq_divide_int signed_modulo_int_eq_modulo_int sgn_if)

lemma time_Unix_micro:
  "time_Unix (ts sdiv 1000000) ((ts smod 1000000) * 1000) =
     \<lparr>t_sec = ts div 1000000, t_nsec = (ts mod 1000000) * 1000\<rparr>"
proof (cases "ts \<ge> 0 \<or> 1000000 dvd ts")
  case True
  then have eq: "ts sdiv 1000000 = ts div 1000000" "ts smod 1000000 = ts mod 1000000"
    using go_div_rem_micro(1) [of ts] by simp_all
  have "0 \<le> ts mod 1000000" "ts mod 1000000 < 1000000" by simp_all
  then have "\<not> ((ts mod 1000000) * 1000 < 0 \<or> (ts mod 1000000) * 1000 \<ge> 1000000000)"
    by linarith
  then show ?thesis unfolding time_Unix_def eq by simp
next
  case False
  then have neg: "ts < 0" and nd: "\<not> 1000000 dvd ts" by simp_all
  then have eq: "ts sdiv 1000000 = ts div 1000000 + 1"
    "ts smod 1000000 = ts mod 1000000 - 1000000"
    using go_div_rem_micro(2) [of ts] by simp_all
  define r where "r = ts mod 1000000"
  have "r \<noteq> 0" using nd by (simp add: r_def dvd_eq_mod_eq_0)
  moreover have "0 \<le> r" "r < 1000000" by (simp_all add: r_def)
  ultimately have r: "0 < r" "r < 1000000" by simp_all
  define ns where "ns = (r - 1000000) * 1000"
  have ns: "ns < 0" "- 1000000000 < ns" using r by (simp_all add: ns_def)
  then have q: "ns sdiv 1000000000 = 0"
    by (simp add: signed_divide_int_def div_pos_pos_trivial)
  show ?thesis
    unfolding time_Unix_def eq r_def [symmetric] ns_def [symmetric]
    using ns q by (simp add: Let_def ns_def)
qed

lemma micro_in_int64:
  fixes ts :: int
  assumes "- (2 ^ 63) \<le> ts" and "ts < 2 ^ 63"
  shows "- (2 ^ 63) \<le> ts sdiv 1000000 \<and> ts sdiv 1000000 < 2 ^ 63 \<and>
         - (2 ^ 63) \<le> (ts smod 1000000) * 1000 \<and> (ts smod 1000000) * 1000 < 2 ^ 63"
proof -
  have d: "ts = (ts div 1000000) * 1000000 + ts mod 1000000" by simp
  have m: "0 \<le> ts mod 1000000" "ts mod 1000000 < 1000000" by simp_all
  show ?thesis
  proof (cases "ts \<ge> 0 \<or> 1000000 dvd ts")
    case True
    then have eq: "ts sdiv 1000000 = ts div 1000000" "ts smod 1000000 = ts mod 1000000"
      using go_div_rem_micro(1) [of ts] by simp_all
    show ?thesis unfolding eq using d m assms by simp linarith
  next
    case False
    then have eq: "ts sdiv 1000000 = ts div 1000000 + 1"
      "ts smod 1000000 = ts mod 1000000 - 1000000"
      using go_div_rem_micro(2) [of ts] by simp_all
    show ?thesis unfolding eq using d m assms False by simp linarith
  qed
qed

section \<open>Properties of the event handlers\<close>

lemmas strconv_eval = ParseInt_def ParseUint_def is_digit_def digit_val_def Let_def IntSize_def
lemmas example_defs = event_def GetHeader_def fresh_Client_def NewClient_def NewStore_def
  empty_Pool_def make_chan_def
lemmas log_defs = clog_def slog_def Log_def


lemma handleChannelHangup_parsed:
  assumes "ParseInt (GetHeader msg ''Event-Date-Timestamp'') 64 = (ts, None)"
  shows "handleChannelHangup c msg uuid =
    (let endTime = \<lparr>t_sec = ts div 1000000, t_nsec = (ts mod 1000000) * 1000\<rparr>;
         status = GetHeader msg ''Hangup-Cause'';
         c2 = clog InfoLevel ''Parsed hangup data for CHANNEL_HANGUP''
                (clog InfoLevel ''Handling CHANNEL_HANGUP event'' c);
         (st, err1) = UpdateCallHangup (Client.store c2) uuid endTime status;
         c3 = c2\<lparr>Client.store := st\<rparr>
     in if err1 \<noteq> None
        then clog ErrorLevel ''Failed to update call record from CHANNEL_HANGUP'' c3
        else clog InfoLevel ''Successfully updated call record from CHANNEL_HANGUP'' c3)"
proof -
  have ne: "GetHeader msg ''Event-Date-Timestamp'' \<noteq> []"
    using assms by (auto simp: ParseInt_def)
  show ?thesis
    unfolding handleChannelHangup_def using ne assms
    by (simp add: Let_def time_Unix_micro)
qed

lemma store_clog [simp]: "Client.store (clog l m c) = Client.store c"
  by (simp add: clog_def)






lemma handleChannelCreate_bad_timestamp:
  assumes "Headers msg ''Event-Date-Timestamp'' = None \<or>
           snd (ParseInt (GetHeader msg ''Event-Date-Timestamp'') 64) \<noteq> None"
  shows "handleChannelCreate c msg uuid \<in>
           {clog ErrorLevel ''Event-Date-Timestamp is missing for CHANNEL_CREATE''
              (clog InfoLevel ''Handling CHANNEL_CREATE event'' c),
            clog ErrorLevel ''Failed to parse start time for CHANNEL_CREATE''
              (clog InfoLevel ''Handling CHANNEL_CREATE event'' c)}"
proof (cases "GetHeader msg ''Event-Date-Timestamp'' = []")
  case True
  then show ?thesis by (simp add: handleChannelCreate_def Let_def)
next
  case False
  with assms have "snd (ParseInt (GetHeader msg ''Event-Date-Timestamp'') 64) \<noteq> None"
    by (auto simp: GetHeader_def)
  with False show ?thesis
    by (auto simp: handleChannelCreate_def Let_def split: prod.splits)
qed

lemma handleChannelHangup_bad_timestamp:
  assumes "Headers msg ''Event-Date-Timestamp'' = None \<or>
           snd (ParseInt (GetHeader msg ''Event-Date-Timestamp'') 64) \<noteq> None"
  shows "handleChannelHangup c msg uuid \<in>
           {clog ErrorLevel ''Event-Date-Timestamp is missing for CHANNEL_HANGUP''
              (clog InfoLevel ''Handling CHANNEL_HANGUP event'' c),
            clog ErrorLevel ''Failed to parse hangup time for CHANNEL_HANGUP''
              (clog InfoLevel ''Handling CHANNEL_HANGUP event'' c)}"
proof (cases "GetHeader msg ''Event-Date-Timestamp'' = []")
  case True
  then show ?thesis by (simp add: handleChannelHangup_def Let_def)
next
  case False
  with assms have "snd (ParseInt (GetHeader msg ''Event-Date-Timestamp'') 64) \<noteq> None"
    by (auto simp: GetHeader_def)
  with False show ?thesis
    by (auto simp: handleChannelHangup_def Let_def split: prod.splits)
qed

lemma handleEvent_store:
  assumes "Client.store (handleChannelCreate c1 msg (GetHeader msg ''Unique-ID'')) = Client.store c1"
    and "Client.store (handleChannelHangup c1 msg (GetHeader msg ''Unique-ID'')) = Client.store c1"
    and "c1 = (if GetHeader msg ''Event-Name'' = ''CHANNEL_CREATE'' \<or>
                  GetHeader msg ''Event-Name'' = ''CHANNEL_HANGUP''
               then clog InfoLevel ''Attempting to process ESL event'' c else c)"
  shows "Client.store (handleEvent c msg) = Client.store c"
  using assms by (auto simp: handleEvent_def Let_def)

text \<open>
  Claim C3. When the \<^verbatim>\<open>Event-Date-Timestamp\<close> header of an event is absent, or
  \<^verbatim>\<open>strconv.ParseInt\<close> does not parse it, the call-start handler and the call-end handler
  discard the event: each writes its two log entries and leaves the store as it was, so
  no statement reaches the database, neither an insert nor an update. The same holds
  for the dispatcher that calls them.
\<close>

theorem C3_bad_timestamp_discarded:
  assumes "Headers msg ''Event-Date-Timestamp'' = None \<or>
           snd (ParseInt (GetHeader msg ''Event-Date-Timestamp'') 64) \<noteq> None"
  shows "Client.store (handleChannelCreate c msg uuid) = Client.store c
       \<and> Client.store (handleChannelHangup c msg uuid) = Client.store c
       \<and> Client.store (handleEvent c msg) = Client.store c
       \<and> handleChannelCreate c msg uuid \<in>
           {clog ErrorLevel ''Event-Date-Timestamp is missing for CHANNEL_CREATE''
              (clog InfoLevel ''Handling CHANNEL_CREATE event'' c),
            clog ErrorLevel ''Failed to parse start time for CHANNEL_CREATE''
              (clog InfoLevel ''Handling CHANNEL_CREATE event'' c)}
       \<and> handleChannelHangup c msg uuid \<in>
           {clog ErrorLevel ''Event-Date-Timestamp is missing for CHANNEL_HANGUP''
              (clog InfoLevel ''Handling CHANNEL_HANGUP event'' c),
            clog ErrorLevel ''Failed to parse hangup time for CHANNEL_HANGUP''
              (clog InfoLevel ''Handling CHANNEL_HANGUP event'' c)}"
proof -
  have cr: "handleChannelCreate c' msg u \<in>
           {clog ErrorLevel ''Event-Date-Timestamp is missing for CHANNEL_CREATE''
              (clog InfoLevel ''Handling CHANNEL_CREATE event'' c'),
            clog ErrorLevel ''Failed to parse start time for CHANNEL_CREATE''
              (clog InfoLevel ''Handling CHANNEL_CREATE event'' c')}" for c' u
    by (rule handleChannelCreate_bad_timestamp [OF assms])
  have hu: "handleChannelHangup c' msg u \<in>
           {clog ErrorLevel ''Event-Date-Timestamp is missing for CHANNEL_HANGUP''
              (clog InfoLevel ''Handling CHANNEL_HANGUP event'' c'),
            clog ErrorLevel ''Failed to parse hangup time for CHANNEL_HANGUP''
              (clog InfoLevel ''Handling CHANNEL_HANGUP event'' c')}" for c' u
    by (rule handleChannelHangup_bad_timestamp [OF assms])
  have scr: "Client.store (handleChannelCreate c' msg u) = Client.store c'" for c' u
    using cr [of c' u] by auto
  have shu: "Client.store (handleChannelHangup c' msg u) = Client.store c'" for c' u
    using hu [of c' u] by auto
  have "Client.store (handleEvent c msg) = Client.store c"
    by (rule handleEvent_store [OF scr shu refl])
  then show ?thesis using cr hu scr shu by blast
qed

theorem C3_bad_timestamp_discarded_witness:
  "(Headers (event [(''Event-Name'', ''CHANNEL_CREATE''), (''Unique-ID'', ''abc''),
                    (''Event-Date-Timestamp'', ''12x4'')]) ''Event-Date-Timestamp'' = None
    \<or> snd (ParseInt (GetHeader (event [(''Event-Name'', ''CHANNEL_CREATE''), (''Unique-ID'', ''abc''),
                    (''Event-Date-Timestamp'', ''12x4'')]) ''Event-Date-Timestamp'') 64) \<noteq> None)
   \<and> Client.store (handleEvent fresh_Client
        (event [(''Event-Name'', ''CHANNEL_CREATE''), (''Unique-ID'', ''abc''),
                (''Event-Date-Timestamp'', ''12x4'')])) = NewStore empty_Pool []
   \<and> Client.store (handleChannelHangup fresh_Client
        (event [(''Event-Name'', ''CHANNEL_CREATE''), (''Unique-ID'', ''abc''),
                (''Event-Date-Timestamp'', ''12x4'')]) ''abc'') = NewStore empty_Pool []
   \<and> Headers (event [(''Event-Name'', ''CHANNEL_HANGUP''), (''Unique-ID'', ''abc'')])
        ''Event-Date-Timestamp'' = None
   \<and> Client.store (handleEvent fresh_Client
        (event [(''Event-Name'', ''CHANNEL_HANGUP''), (''Unique-ID'', ''abc'')])) =
       NewStore empty_Pool []"
proof -
  have q: "Headers (event [(''Event-Name'', ''CHANNEL_HANGUP''), (''Unique-ID'', ''abc'')])
        ''Event-Date-Timestamp'' = None"
    by (simp add: event_def)
  have p: "Headers (event [(''Event-Name'', ''CHANNEL_CREATE''), (''Unique-ID'', ''abc''),
                    (''Event-Date-Timestamp'', ''12x4'')]) ''Event-Date-Timestamp'' = None
    \<or> snd (ParseInt (GetHeader (event [(''Event-Name'', ''CHANNEL_CREATE''), (''Unique-ID'', ''abc''),
                    (''Event-Date-Timestamp'', ''12x4'')]) ''Event-Date-Timestamp'') 64) \<noteq> None"
    by (simp add: event_def GetHeader_def strconv_eval)
  have s: "Client.store fresh_Client = NewStore empty_Pool []"
    by (simp add: fresh_Client_def NewClient_def)
  show ?thesis
    using p q C3_bad_timestamp_discarded [OF p, of fresh_Client "''abc''"]
      C3_bad_timestamp_discarded [OF disjI1 [OF q], of fresh_Client "''abc''"] s
    by simp
qed

text \<open>
  Claim C5, as amended. For an event whose \<^verbatim>\<open>Unique-ID\<close> header is empty or missing:
  when its kind is \<^verbatim>\<open>CHANNEL_CREATE\<close> or \<^verbatim>\<open>CHANNEL_HANGUP\<close>, the dispatcher drops it
  with no storage call and writes exactly one log entry, at the Info level; for every
  other kind it drops the event and writes no log entry.
\<close>

theorem C5_missing_identifier:
  assumes "GetHeader msg ''Unique-ID'' = []"
  shows "(GetHeader msg ''Event-Name'' = ''CHANNEL_CREATE'' \<or>
          GetHeader msg ''Event-Name'' = ''CHANNEL_HANGUP'' \<longrightarrow>
            handleEvent c msg =
              c\<lparr>Client.log := Client.log c @
                   [\<lparr>Level = InfoLevel,
                     Message = ''Received relevant event with no Unique-ID, skipping''\<rparr>]\<rparr>)
       \<and> (GetHeader msg ''Event-Name'' \<noteq> ''CHANNEL_CREATE'' \<and>
          GetHeader msg ''Event-Name'' \<noteq> ''CHANNEL_HANGUP'' \<longrightarrow> handleEvent c msg = c)
       \<and> Client.store (handleEvent c msg) = Client.store c"
  using assms by (simp add: handleEvent_def Let_def clog_def Log_def)

theorem C5_missing_identifier_witness:
  "GetHeader (event [(''Event-Name'', ''CHANNEL_CREATE'')]) ''Unique-ID'' = []
   \<and> Client.log (handleEvent fresh_Client (event [(''Event-Name'', ''CHANNEL_CREATE'')])) =
       [\<lparr>Level = InfoLevel, Message = ''Received relevant event with no Unique-ID, skipping''\<rparr>]
   \<and> Client.store (handleEvent fresh_Client (event [(''Event-Name'', ''CHANNEL_CREATE'')])) =
       NewStore empty_Pool []"
proof -
  have p: "GetHeader (event [(''Event-Name'', ''CHANNEL_CREATE'')]) ''Unique-ID'' = []"
    by (simp add: event_def GetHeader_def)
  have n: "GetHeader (event [(''Event-Name'', ''CHANNEL_CREATE'')]) ''Event-Name'' = ''CHANNEL_CREATE''"
    by (simp add: event_def GetHeader_def)
  show ?thesis
    using p n C5_missing_identifier [OF p, of fresh_Client]
    by (simp add: fresh_Client_def NewClient_def)
qed

text \<open>
  The entry for a call-start event without an identifier is written at the Info level,
  which is not an elevated severity: the log holds no entry of an elevated severity
  where the claim as stated asks for one.
\<close>

theorem C5_elevated_entry_counterexample:
  "GetHeader (event [(''Event-Name'', ''CHANNEL_CREATE'')]) ''Event-Name'' = ''CHANNEL_CREATE''
   \<and> GetHeader (event [(''Event-Name'', ''CHANNEL_CREATE'')]) ''Unique-ID'' = []
   \<and> length (filter (\<lambda>e. elevated (Level e))
        (Client.log (handleEvent fresh_Client (event [(''Event-Name'', ''CHANNEL_CREATE'')])))) = 0
   \<and> length (filter (\<lambda>e. elevated (Level e))
        (Client.log (handleEvent fresh_Client (event [(''Event-Name'', ''CHANNEL_CREATE'')])))) \<noteq> 1"
  by (simp add: handleEvent_def example_defs log_defs elevated_def Let_def)

text \<open>
  Claim C6. An event whose \<^verbatim>\<open>Event-Name\<close> is neither \<^verbatim>\<open>CHANNEL_CREATE\<close> nor
  \<^verbatim>\<open>CHANNEL_HANGUP\<close> is dropped: the dispatcher returns with the client unchanged, so it
  raises no error, makes no storage call and writes no log entry, of elevated severity or
  any other.
\<close>

theorem C6_unknown_kind_dropped:
  assumes "GetHeader msg ''Event-Name'' \<noteq> ''CHANNEL_CREATE''"
    and "GetHeader msg ''Event-Name'' \<noteq> ''CHANNEL_HANGUP''"
  shows "handleEvent c msg = c
       \<and> Client.store (handleEvent c msg) = Client.store c
       \<and> filter (\<lambda>e. elevated (Level e)) (Client.log (handleEvent c msg)) =
           filter (\<lambda>e. elevated (Level e)) (Client.log c)"
  using assms by (simp add: handleEvent_def Let_def)

theorem C6_unknown_kind_dropped_witness:
  "GetHeader (event [(''Event-Name'', ''HEARTBEAT''), (''Unique-ID'', ''abc'')]) ''Event-Name''
     \<noteq> ''CHANNEL_CREATE''
   \<and> GetHeader (event [(''Event-Name'', ''HEARTBEAT''), (''Unique-ID'', ''abc'')]) ''Event-Name''
     \<noteq> ''CHANNEL_HANGUP''
   \<and> handleEvent fresh_Client (event [(''Event-Name'', ''HEARTBEAT''), (''Unique-ID'', ''abc'')]) =
       fresh_Client"
proof -
  have a: "GetHeader (event [(''Event-Name'', ''HEARTBEAT''), (''Unique-ID'', ''abc'')]) ''Event-Name''
     \<noteq> ''CHANNEL_CREATE''"
    by (simp add: event_def GetHeader_def)
  have b: "GetHeader (event [(''Event-Name'', ''HEARTBEAT''), (''Unique-ID'', ''abc'')]) ''Event-Name''
     \<noteq> ''CHANNEL_HANGUP''"
    by (simp add: event_def GetHeader_def)
  show ?thesis using a b C6_unknown_kind_dropped [OF a b, of fresh_Client] by simp
qed

text \<open>
  Claim C10. \<^verbatim>\<open>Close\<close> on a client that holds no connection handle, because it never
  connected or has been disconnected, returns \<^verbatim>\<open>nil\<close>; it writes two Info entries.
\<close>

theorem C10_Close_without_connection:
  assumes "conn c = None"
  shows "Close env c =
           (clog InfoLevel ''ESL connection already closed or not established.''
              (clog InfoLevel ''Closing ESL client connection...'' c), None)"
  using assms by (simp add: Close_def Let_def clog_def)

theorem C10_Close_without_connection_witness:
  "conn fresh_Client = None \<and> snd (Close peer_unreachable fresh_Client) = None"
proof -
  have a: "conn fresh_Client = None" by (simp add: fresh_Client_def NewClient_def)
  show ?thesis using a C10_Close_without_connection [OF a, of peer_unreachable] by simp
qed

subsection \<open>A call-end event for an unknown call\<close>

lemma pool_update_unknown:
  assumes "fault p = None" and "\<forall>r \<in> set (table p). UUID r \<noteq> uuid"
  shows "pool_update p endTime status uuid =
           (p\<lparr>journal := journal p @ [UpdateHangup endTime status uuid]\<rparr>, Inr 0)"
proof -
  have "map (\<lambda>r. if UUID r = uuid then r\<lparr>EndTime := Some endTime, Status := Some status\<rparr> else r)
          (table p) = table p"
    using assms(2) by (simp add: map_idI)
  moreover have "filter (\<lambda>r. UUID r = uuid) (table p) = []"
    using assms(2) by (simp add: filter_empty_conv)
  ultimately show ?thesis using assms(1) by (simp add: pool_update_def Let_def)
qed

lemma UpdateCallHangup_unknown:
  assumes "fault (db s) = None" and "\<forall>r \<in> set (table (db s)). UUID r \<noteq> uuid"
  shows "UpdateCallHangup s uuid endTime status =
           (s\<lparr>db := (db s)\<lparr>journal := journal (db s) @ [UpdateHangup endTime status uuid]\<rparr>,
              Store.log := Store.log s @
                [\<lparr>Level = WarnLevel, Message = ''No call record found to update for hangup''\<rparr>,
                 \<lparr>Level = InfoLevel, Message = ''Call record updated with hangup info''\<rparr>]\<rparr>,
            None)"
  by (simp add: UpdateCallHangup_def pool_update_unknown [OF assms] slog_def Log_def Let_def)

text \<open>
  Claim C7. For a call-end event whose call identifier matches no row of the table,
  with a timestamp that parses and a database that runs the statement: the update
  affects zero rows and leaves the table as it was, \<^verbatim>\<open>UpdateCallHangup\<close> logs that as a
  warning and returns \<^verbatim>\<open>nil\<close>, and the handler, which returns nothing, logs the update
  as a success. No entry of the Error level is written.
\<close>

theorem C7_hangup_for_unknown_call:
  assumes "ParseInt (GetHeader msg ''Event-Date-Timestamp'') 64 = (ts, None)"
    and "fault (db (Client.store c)) = None"
    and "\<forall>r \<in> set (table (db (Client.store c))). UUID r \<noteq> uuid"
  shows "snd (pool_update (db (Client.store c)) endTime status uuid) = Inr 0
       \<and> snd (UpdateCallHangup (Client.store c) uuid endTime status) = None
       \<and> table (db (Client.store (handleChannelHangup c msg uuid))) = table (db (Client.store c))
       \<and> Store.log (Client.store (handleChannelHangup c msg uuid)) =
           Store.log (Client.store c) @
             [\<lparr>Level = WarnLevel, Message = ''No call record found to update for hangup''\<rparr>,
              \<lparr>Level = InfoLevel, Message = ''Call record updated with hangup info''\<rparr>]
       \<and> Client.log (handleChannelHangup c msg uuid) =
           Client.log c @
             [\<lparr>Level = InfoLevel, Message = ''Handling CHANNEL_HANGUP event''\<rparr>,
              \<lparr>Level = InfoLevel, Message = ''Parsed hangup data for CHANNEL_HANGUP''\<rparr>,
              \<lparr>Level = InfoLevel,
                Message = ''Successfully updated call record from CHANNEL_HANGUP''\<rparr>]"
proof -
  have u: "UpdateCallHangup (Client.store c) uuid e st =
           ((Client.store c)\<lparr>db := (db (Client.store c))\<lparr>journal :=
                 journal (db (Client.store c)) @ [UpdateHangup e st uuid]\<rparr>,
              Store.log := Store.log (Client.store c) @
                [\<lparr>Level = WarnLevel, Message = ''No call record found to update for hangup''\<rparr>,
                 \<lparr>Level = InfoLevel, Message = ''Call record updated with hangup info''\<rparr>]\<rparr>,
            None)" for e st
    by (rule UpdateCallHangup_unknown [OF assms(2,3)])
  have p: "snd (pool_update (db (Client.store c)) endTime status uuid) = Inr 0"
    by (simp add: pool_update_unknown [OF assms(2,3)])
  show ?thesis
    unfolding handleChannelHangup_parsed [OF assms(1)]
    using p by (simp add: u Let_def clog_def Log_def)
qed

theorem C7_hangup_for_unknown_call_witness:
  "ParseInt (GetHeader (event [(''Event-Date-Timestamp'', ''5000000''),
                               (''Hangup-Cause'', ''NORMAL_CLEARING'')])
       ''Event-Date-Timestamp'') 64 = (5000000, None)
   \<and> fault (db (Client.store one_call_Client)) = None
   \<and> map UUID (table (db (Client.store one_call_Client))) = [''abc'']
   \<and> snd (UpdateCallHangup (Client.store one_call_Client) ''xyz''
            \<lparr>t_sec = 5, t_nsec = 0\<rparr> ''NORMAL_CLEARING'') = None
   \<and> Store.log (Client.store (handleChannelHangup one_call_Client
         (event [(''Event-Date-Timestamp'', ''5000000''), (''Hangup-Cause'', ''NORMAL_CLEARING'')])
         ''xyz'')) =
       [\<lparr>Level = WarnLevel, Message = ''No call record found to update for hangup''\<rparr>,
        \<lparr>Level = InfoLevel, Message = ''Call record updated with hangup info''\<rparr>]"
proof -
  let ?msg = "event [(''Event-Date-Timestamp'', ''5000000''), (''Hangup-Cause'', ''NORMAL_CLEARING'')]"
  have a: "ParseInt (GetHeader ?msg ''Event-Date-Timestamp'') 64 = (5000000, None)"
    by (simp add: event_def GetHeader_def strconv_eval)
  have b: "fault (db (Client.store one_call_Client)) = None"
    by (simp add: one_call_Client_def NewClient_def NewStore_def one_call_Pool_def empty_Pool_def)
  have t: "map UUID (table (db (Client.store one_call_Client))) = [''abc'']"
    by (simp add: one_call_Client_def NewClient_def NewStore_def one_call_Pool_def empty_Pool_def)
  have "\<forall>u \<in> set (map UUID (table (db (Client.store one_call_Client)))). u \<noteq> ''xyz''"
    unfolding t by simp
  then have d: "\<forall>r \<in> set (table (db (Client.store one_call_Client))). UUID r \<noteq> ''xyz''"
    by simp
  have l: "Store.log (Client.store one_call_Client) = []"
    by (simp add: one_call_Client_def NewClient_def NewStore_def)
  show ?thesis
    using a b t l
      C7_hangup_for_unknown_call [OF a b d, of "\<lparr>t_sec = 5, t_nsec = 0\<rparr>" "''NORMAL_CLEARING''"]
    by simp
qed

section \<open>Properties of the connection handling\<close>

subsection \<open>The reconnect channel\<close>

lemma chan_inv_make_chan: "chan_inv (make_chan n)"
  by (simp add: chan_inv_def make_chan_def)

lemma chansend_inv: "chan_inv ch \<Longrightarrow> chan_inv (chansend g ch)"
  by (auto simp: chan_inv_def chansend_def)

lemma chansend_dataqsiz [simp]: "dataqsiz (chansend g ch) = dataqsiz ch"
  by (simp add: chansend_def)

lemma chansend_outstanding: "outstanding (chansend g ch) = Suc (outstanding ch)"
  by (simp add: outstanding_def chansend_def)

lemma chanrecv_inv: "chan_inv ch \<Longrightarrow> chanrecv ch = Some ch1 \<Longrightarrow> chan_inv ch1"
  by (auto simp: chan_inv_def chanrecv_def split: list.splits if_splits)

lemma chanrecv_dataqsiz: "chanrecv ch = Some ch1 \<Longrightarrow> dataqsiz ch1 = dataqsiz ch"
  by (auto simp: chanrecv_def split: list.splits if_splits)

lemma chanrecv_outstanding:
  "chanrecv ch = Some ch1 \<Longrightarrow> Suc (outstanding ch1) = outstanding ch"
  by (auto simp: outstanding_def chanrecv_def split: list.splits if_splits)

lemma chan_apply_inv:
  assumes "chan_inv ch" and "chan_apply (ch, k) op = (ch1, k1)"
  shows "chan_inv ch1 \<and> dataqsiz ch1 = dataqsiz ch
       \<and> (if is_Post op then 1 else 0) + k + outstanding ch = k1 + outstanding ch1"
proof (cases op)
  case (Post g)
  with assms show ?thesis
    by (auto simp: chansend_inv chansend_outstanding)
next
  case Receive
  show ?thesis
  proof (cases "chanrecv ch")
    case None
    with Receive assms show ?thesis by auto
  next
    case (Some ch')
    with Receive assms have "ch1 = ch'" "k1 = Suc k" by auto
    with Some Receive assms(1) show ?thesis
      using chanrecv_inv [of ch ch'] chanrecv_dataqsiz [of ch ch'] chanrecv_outstanding [of ch ch']
      by auto
  qed
qed

lemma foldl_chan_apply:
  assumes "chan_inv ch" and "foldl chan_apply (ch, k) ops = (ch1, k1)"
  shows "chan_inv ch1 \<and> dataqsiz ch1 = dataqsiz ch
       \<and> posts ops + k + outstanding ch = k1 + outstanding ch1"
  using assms
proof (induction ops arbitrary: ch k)
  case Nil
  then show ?case by (simp add: posts_def)
next
  case (Cons op ops)
  obtain ch' k' where step: "chan_apply (ch, k) op = (ch', k')"
    by (cases "chan_apply (ch, k) op") auto
  from chan_apply_inv [OF Cons.prems(1) step]
  have inv: "chan_inv ch'" and sz: "dataqsiz ch' = dataqsiz ch"
    and cnt: "(if is_Post op then 1 else 0) + k + outstanding ch = k' + outstanding ch'"
    by simp_all
  from Cons.prems(2) step have "foldl chan_apply (ch', k') ops = (ch1, k1)" by simp
  from Cons.IH [OF inv this]
  have "chan_inv ch1" "dataqsiz ch1 = dataqsiz ch'"
    "posts ops + k' + outstanding ch' = k1 + outstanding ch1" by simp_all
  then show ?case using sz cnt by (auto simp: posts_def)
qed

lemma read_failures_parked:
  "parked EventLoop (reconnect c) \<Longrightarrow> read_failures n err c = c"
  by (induction n) (simp_all add: eventLoop_pass_def)

lemma read_failure_first:
  assumes "conn c \<noteq> None" and "reconnect c = make_chan 1"
  shows "reconnect (fst (eventLoop_pass (ReadError err) c)) = \<lparr>qcount = 1, dataqsiz = 1, sendq = []\<rparr>
       \<and> conn (fst (eventLoop_pass (ReadError err) c)) \<noteq> None"
  using assms
  by (simp add: eventLoop_pass_def parked_def make_chan_def signal_reconnect_def chansend_def clog_def)

lemma read_failure_second:
  assumes "conn c \<noteq> None" and "reconnect c = \<lparr>qcount = 1, dataqsiz = 1, sendq = []\<rparr>"
  shows "reconnect (fst (eventLoop_pass (ReadError err) c)) =
           \<lparr>qcount = 1, dataqsiz = 1, sendq = [EventLoop]\<rparr>"
  using assms
  by (simp add: eventLoop_pass_def parked_def signal_reconnect_def chansend_def clog_def)

lemma read_failures_from_empty:
  assumes "conn c \<noteq> None" and "reconnect c = make_chan 1"
  shows "reconnect (read_failures (Suc n) err c) =
           \<lparr>qcount = 1, dataqsiz = 1, sendq = (if n = 0 then [] else [EventLoop])\<rparr>"
proof -
  define c1 where "c1 = fst (eventLoop_pass (ReadError err) c)"
  have c1: "reconnect c1 = \<lparr>qcount = 1, dataqsiz = 1, sendq = []\<rparr>" "conn c1 \<noteq> None"
    using read_failure_first [OF assms, of err] by (simp_all add: c1_def)
  show ?thesis
  proof (cases n)
    case 0
    then show ?thesis using c1 by (simp add: c1_def)
  next
    case (Suc m)
    define c2 where "c2 = fst (eventLoop_pass (ReadError err) c1)"
    have c2: "reconnect c2 = \<lparr>qcount = 1, dataqsiz = 1, sendq = [EventLoop]\<rparr>"
      using read_failure_second [OF c1(2) c1(1), of err] by (simp add: c2_def)
    then have "parked EventLoop (reconnect c2)" by (simp add: parked_def)
    then have "read_failures m err c2 = c2" by (rule read_failures_parked)
    then show ?thesis using Suc c2 by (simp add: c1_def c2_def)
  qed
qed

text \<open>
  Claim C1, as amended. The reconnect channel has capacity 1 and every post is a
  blocking send. Whatever posts and receives happen after \<^verbatim>\<open>NewClient\<close>, the buffer
  never holds more than one signal, and no post is dropped: each post is either
  received, or in the buffer, or held by its sender, which stays parked in the send
  until a receive makes room. After one read failure on a connected client whose
  channel was empty one signal is buffered; after two or more in a row, with no
  receive between, one signal is buffered and the event loop is parked in its second
  post, however many failures follow.
\<close>

theorem C1_reconnect_signals:
  "(case run_ops ops (reconnect (NewClient a p s logger)) of
      (ch, received) \<Rightarrow>
        qcount ch \<le> 1 \<and> posts ops = received + qcount ch + length (sendq ch))
   \<and> (conn c \<noteq> None \<and> reconnect c = make_chan 1 \<longrightarrow>
        reconnect (read_failures (Suc n) err c) =
          \<lparr>qcount = 1, dataqsiz = 1, sendq = (if n = 0 then [] else [EventLoop])\<rparr>)"
proof -
  obtain ch received where r: "run_ops ops (reconnect (NewClient a p s logger)) = (ch, received)"
    by (cases "run_ops ops (reconnect (NewClient a p s logger))") auto
  have start: "reconnect (NewClient a p s logger) = make_chan 1" by (simp add: NewClient_def)
  from r have "foldl chan_apply (make_chan 1, 0) ops = (ch, received)"
    by (simp add: run_ops_def start)
  from foldl_chan_apply [OF chan_inv_make_chan this]
  have "chan_inv ch" "dataqsiz ch = 1" "posts ops = received + outstanding ch"
    by (simp_all add: make_chan_def outstanding_def)
  then have "qcount ch \<le> 1 \<and> posts ops = received + qcount ch + length (sendq ch)"
    by (simp add: chan_inv_def outstanding_def)
  then show ?thesis using r read_failures_from_empty [of c n err] by simp
qed

theorem C1_reconnect_signals_witness:
  "run_ops [Post EventLoop, Post (Resignal 0), Receive, Receive, Receive]
       (reconnect (NewClient ''127.0.0.1:8021'' ''ClueCon'' (NewStore empty_Pool []) [])) =
     (make_chan 1, 2)
   \<and> posts [Post EventLoop, Post (Resignal 0), Receive, Receive, Receive] = 2
   \<and> conn connected_Client \<noteq> None
   \<and> reconnect connected_Client = make_chan 1
   \<and> reconnect (read_failures (Suc (Suc (Suc 0))) (LibError ''EOF'') connected_Client) =
       \<lparr>qcount = 1, dataqsiz = 1, sendq = [EventLoop]\<rparr>"
proof -
  have a: "conn connected_Client \<noteq> None"
    by (simp add: connected_Client_def)
  have b: "reconnect connected_Client = make_chan 1"
    by (simp add: connected_Client_def fresh_Client_def NewClient_def)
  have r: "run_ops [Post EventLoop, Post (Resignal 0), Receive, Receive, Receive]
       (reconnect (NewClient ''127.0.0.1:8021'' ''ClueCon'' (NewStore empty_Pool []) [])) =
     (make_chan 1, 2)"
    by (simp add: run_ops_def NewClient_def make_chan_def chansend_def chanrecv_def)
  have p: "posts [Post EventLoop, Post (Resignal 0), Receive, Receive, Receive] = 2"
    by (simp add: posts_def)
  show ?thesis
    using a b r p
      C1_reconnect_signals [of "[Post EventLoop, Post (Resignal 0), Receive, Receive, Receive]"
        "''127.0.0.1:8021''" "''ClueCon''" "NewStore empty_Pool []" "[]" connected_Client
        "Suc (Suc 0)" "LibError ''EOF''"]
    by simp
qed

text \<open>
  A second read failure while a signal is pending changes the channel: the event loop
  parks with its signal, the receive that takes the first signal puts the second into
  the buffer, and two posts are answered by two receives.
\<close>

theorem C1_duplicate_post_counterexample:
  "qcount (reconnect (read_failures (Suc 0) (LibError ''EOF'') connected_Client)) = 1
   \<and> reconnect (read_failures (Suc (Suc 0)) (LibError ''EOF'') connected_Client) \<noteq>
       reconnect (read_failures (Suc 0) (LibError ''EOF'') connected_Client)
   \<and> sendq (reconnect (read_failures (Suc (Suc 0)) (LibError ''EOF'') connected_Client)) =
       [EventLoop]
   \<and> chanrecv (reconnect (read_failures (Suc (Suc 0)) (LibError ''EOF'') connected_Client)) =
       Some (reconnect (read_failures (Suc 0) (LibError ''EOF'') connected_Client))
   \<and> run_ops [Post EventLoop, Post EventLoop, Receive, Receive]
       (reconnect connected_Client) = (reconnect connected_Client, 2)"
  by (simp add: connected_Client_def fresh_Client_def NewClient_def make_chan_def
      eventLoop_pass_def parked_def signal_reconnect_def chansend_def chanrecv_def clog_def
      run_ops_def)

subsection \<open>The reconnection manager\<close>

lemma connect_error_frame:
  "snd (connect env (c\<lparr>Client.log := l\<rparr>)) = snd (connect env c)"
  "snd (connect env (c\<lparr>conn := h\<rparr>)) = snd (connect env c)"
  "snd (connect env (c\<lparr>reconnect := ch\<rparr>)) = snd (connect env c)"
  by (auto simp: connect_def clog_def split: sum.splits prod.splits option.splits)

lemma connect_failed:
  assumes "connect env c = (c1, Some err)"
  shows "conn c1 = conn c \<and> reconnect c1 = reconnect c"
  using assms
  by (auto simp: connect_def clog_def split: sum.splits prod.splits option.splits)

text \<open>
  Claim C4, as amended. When the reconnection manager takes a reconnect signal and its
  connection attempt fails, it starts a goroutine that posts a new signal after 5
  seconds, and it posts nothing itself: the channel is as the receive left it and the
  client holds no connection. Whether an attempt fails depends on the client's address
  and password and on the peer, not on the handle, the log or the channel
  (\<open>connect_error_frame\<close>), so the hypothesis speaks of the client as the manager found
  it.
\<close>

theorem C4_failed_attempt_delays_signal:
  assumes "\<not> parked ReconnectionManager (reconnect c)"
    and "chanrecv (reconnect c) = Some ch"
    and "snd (connect env c) = Some err"
  shows "\<exists>c1. reconnectionManager_on_reconnect env c = Some (c1, [Go_sleep_then_signal 5])
           \<and> reconnect c1 = ch \<and> conn c1 = None"
proof -
  define c2 where
    "c2 = (case conn (clog InfoLevel ''Attempting to reconnect to ESL...'' (c\<lparr>reconnect := ch\<rparr>)) of
             Some h \<Rightarrow> (clog InfoLevel ''Attempting to reconnect to ESL...'' (c\<lparr>reconnect := ch\<rparr>))\<lparr>conn := None\<rparr>
           | None \<Rightarrow> clog InfoLevel ''Attempting to reconnect to ESL...'' (c\<lparr>reconnect := ch\<rparr>))"
  have c2: "conn c2 = None" "reconnect c2 = ch"
    by (auto simp: c2_def clog_def split: option.splits)
  have "snd (connect env c2) = snd (connect env c)"
    by (auto simp: c2_def clog_def connect_error_frame split: option.splits)
  with assms(3) obtain c3 where c3: "connect env c2 = (c3, Some err)"
    by (cases "connect env c2") auto
  from connect_failed [OF c3] c2 have "conn c3 = None" "reconnect c3 = ch" by simp_all
  moreover have "reconnectionManager_on_reconnect env c =
      Some (clog ErrorLevel ''ESL reconnection attempt failed. Will retry.'' c3,
            [Go_sleep_then_signal 5])"
    using assms(1,2) c3
    unfolding reconnectionManager_on_reconnect_def Let_def c2_def by simp
  ultimately show ?thesis by (simp add: clog_def)
qed

lemma peer_unreachable_fails:
  "snd (connect peer_unreachable c) = Some (LibError ''connection refused'')"
  by (simp add: connect_def peer_unreachable_def ParseUint_def is_digit_def digit_val_def Let_def)

theorem C4_failed_attempt_delays_signal_witness:
  "\<not> parked ReconnectionManager (reconnect (signal_reconnect EventLoop connected_Client))
   \<and> chanrecv (reconnect (signal_reconnect EventLoop connected_Client)) = Some (make_chan 1)
   \<and> snd (connect peer_unreachable (signal_reconnect EventLoop connected_Client)) =
       Some (LibError ''connection refused'')
   \<and> map_option snd (reconnectionManager_on_reconnect peer_unreachable
        (signal_reconnect EventLoop connected_Client)) = Some [Go_sleep_then_signal 5]
   \<and> map_option (reconnect \<circ> fst) (reconnectionManager_on_reconnect peer_unreachable
        (signal_reconnect EventLoop connected_Client)) = Some (make_chan 1)"
proof -
  let ?c = "signal_reconnect EventLoop connected_Client"
  have a: "\<not> parked ReconnectionManager (reconnect ?c)"
    by (simp add: parked_def signal_reconnect_def connected_Client_def fresh_Client_def
        NewClient_def make_chan_def chansend_def)
  have b: "chanrecv (reconnect ?c) = Some (make_chan 1)"
    by (simp add: signal_reconnect_def connected_Client_def fresh_Client_def
        NewClient_def make_chan_def chansend_def chanrecv_def)
  have d: "snd (connect peer_unreachable ?c) = Some (LibError ''connection refused'')"
    by (rule peer_unreachable_fails)
  from C4_failed_attempt_delays_signal [OF a b d]
  obtain c1 where "reconnectionManager_on_reconnect peer_unreachable ?c =
      Some (c1, [Go_sleep_then_signal 5])" "reconnect c1 = make_chan 1"
    by blast
  then show ?thesis using a b d by simp
qed

text \<open>
  When the attempt succeeds and the subscription fails, the manager starts no sleeping
  goroutine and posts the signal at once.
\<close>

theorem C4_subscription_failure_counterexample:
  "snd (connect peer_refusing_subscription (signal_reconnect EventLoop connected_Client)) = None
   \<and> map_option snd (reconnectionManager_on_reconnect peer_refusing_subscription
        (signal_reconnect EventLoop connected_Client)) = Some []
   \<and> map_option (reconnect \<circ> fst) (reconnectionManager_on_reconnect peer_refusing_subscription
        (signal_reconnect EventLoop connected_Client)) =
       Some (chansend ReconnectionManager (make_chan 1))
   \<and> qcount (chansend ReconnectionManager (make_chan 1)) = 1"
  by (simp add: reconnectionManager_on_reconnect_def connect_def subscribeToEvents_def
      peer_refusing_subscription_def signal_reconnect_def connected_Client_def fresh_Client_def
      NewClient_def make_chan_def chansend_def chanrecv_def parked_def clog_def
      ParseUint_def is_digit_def digit_val_def Let_def)

text \<open>\<^verbatim>\<open>Start\<close> posts the signal of a failed first attempt at once as well.\<close>

lemma Start_failure_signals_at_once:
  assumes "snd (connect env c) = Some err"
  shows "reconnect (fst (Start env c)) = chansend StartCaller (reconnect c)
       \<and> fst (snd (Start env c)) = [Go_eventLoop, Go_reconnectionManager]"
proof -
  have "snd (connect env (clog InfoLevel ''Starting ESL client...'' c)) = Some err"
    using assms by (simp add: clog_def connect_error_frame)
  then obtain c1 where c1: "connect env (clog InfoLevel ''Starting ESL client...'' c) = (c1, Some err)"
    by (cases "connect env (clog InfoLevel ''Starting ESL client...'' c)") auto
  from connect_failed [OF c1] have "reconnect c1 = reconnect c" by (simp add: clog_def)
  then show ?thesis using c1 by (simp add: Start_def Let_def signal_reconnect_def clog_def)
qed

section \<open>Properties of the query API\<close>

lemma Atoi_literal:
  assumes "int_literal s = Some v"
  shows "Atoi s =
           (if v < - (2 ^ 63) then (- (2 ^ 63), Some ErrRange)
            else if 2 ^ 63 \<le> v then (2 ^ 63 - 1, Some ErrRange)
            else (v, None))"
  unfolding Atoi_def by (rule ParseInt_literal [OF assms]) simp

lemma Atoi_not_literal:
  assumes "int_literal s = None"
  shows "snd (Atoi s) \<noteq> None"
  unfolding Atoi_def by (rule ParseInt_not_literal [OF assms]) simp

lemma Itoa_defaults: "Itoa defaultLimit = ''10''" "Itoa defaultOffset = ''0''"
  by (simp_all add: Itoa_def defaultLimit_def defaultOffset_def digits.simps)

lemma int_literal_defaults: "int_literal ''10'' = Some 10" "int_literal ''0'' = Some 0"
  by (simp_all add: int_literal_def decimal_def decimal_step_def is_digit_def digit_val_def)

lemma limit_used:
  assumes "Atoi (DefaultQuery q ''limit'' (Itoa defaultLimit)) = (limit0, err)"
  shows "(if err \<noteq> None \<or> limit0 \<le> 0 \<or> limit0 > maxLimit then defaultLimit else limit0) =
           asked_limit q"
proof (cases "q ''limit''")
  case None
  then have "Atoi ''10'' = (limit0, err)"
    using assms by (simp add: DefaultQuery_def Itoa_defaults)
  then have "limit0 = 10" "err = None"
    using Atoi_literal [OF int_literal_defaults(1)] by simp_all
  then show ?thesis
    using None by (simp add: asked_limit_def query_int_def maxLimit_def defaultLimit_def)
next
  case (Some s)
  then have a: "Atoi s = (limit0, err)" using assms by (simp add: DefaultQuery_def)
  show ?thesis
  proof (cases "int_literal s")
    case None
    then have "err \<noteq> None" using Atoi_not_literal [of s] a by simp
    then show ?thesis
      using None Some by (simp add: asked_limit_def query_int_def defaultLimit_def)
  next
    case (Some v)
    from Atoi_literal [OF Some] a
    have "(limit0, err) =
           (if v < - (2 ^ 63) then (- (2 ^ 63), Some ErrRange)
            else if 2 ^ 63 \<le> v then (2 ^ 63 - 1, Some ErrRange)
            else (v, None))" by simp
    then show ?thesis
      using Some \<open>q ''limit'' = Some s\<close>
      by (auto simp: asked_limit_def query_int_def maxLimit_def defaultLimit_def split: if_splits)
  qed
qed

lemma offset_used:
  assumes "Atoi (DefaultQuery q ''offset'' (Itoa defaultOffset)) = (offset0, err)"
  shows "(if err \<noteq> None \<or> offset0 < 0 then defaultOffset else offset0) =
           (if asked_offset q < 2 ^ 63 then asked_offset q else 0)"
proof (cases "q ''offset''")
  case None
  then have "Atoi ''0'' = (offset0, err)"
    using assms by (simp add: DefaultQuery_def Itoa_defaults)
  then have "offset0 = 0" "err = None"
    using Atoi_literal [OF int_literal_defaults(2)] by simp_all
  then show ?thesis
    using None by (simp add: asked_offset_def query_int_def defaultOffset_def)
next
  case (Some s)
  then have a: "Atoi s = (offset0, err)" using assms by (simp add: DefaultQuery_def)
  show ?thesis
  proof (cases "int_literal s")
    case None
    then have "err \<noteq> None" using Atoi_not_literal [of s] a by simp
    then show ?thesis
      using None Some by (simp add: asked_offset_def query_int_def defaultOffset_def)
  next
    case (Some v)
    from Atoi_literal [OF Some] a
    have "(offset0, err) =
           (if v < - (2 ^ 63) then (- (2 ^ 63), Some ErrRange)
            else if 2 ^ 63 \<le> v then (2 ^ 63 - 1, Some ErrRange)
            else (v, None))" by simp
    then show ?thesis
      using Some \<open>q ''offset'' = Some s\<close>
      by (auto simp: asked_offset_def query_int_def defaultOffset_def split: if_splits)
  qed
qed

lemma store_srvlog [simp]: "Server.store (srvlog l m s) = Server.store s"
  by (simp add: srvlog_def)

lemma getCallsHandler_GetCalls:
  "\<exists>s2. Server.store s2 = Server.store s \<and>
     getCallsHandler s q =
       (case GetCalls (Server.store s) (asked_limit q)
               (if asked_offset q < 2 ^ 63 then asked_offset q else 0) of
          (st, calls, err2) \<Rightarrow>
            if err2 \<noteq> None
            then (srvlog ErrorLevel ''Error retrieving calls from store'' (s2\<lparr>Server.store := st\<rparr>),
                  \<lparr>code = 500, body = JSONObject [(''error'', ''Failed to retrieve calls'')]\<rparr>)
            else (s2\<lparr>Server.store := st\<rparr>,
                  \<lparr>code = 200,
                   body = json_Marshal_calls (if calls = NilSlice then Slice [] else calls)\<rparr>))"
proof -
  obtain limit0 err where l: "Atoi (DefaultQuery q ''limit'' (Itoa defaultLimit)) = (limit0, err)"
    by (cases "Atoi (DefaultQuery q ''limit'' (Itoa defaultLimit))") auto
  obtain offset0 err1 where
    off: "Atoi (DefaultQuery q ''offset'' (Itoa defaultOffset)) = (offset0, err1)"
    by (cases "Atoi (DefaultQuery q ''offset'' (Itoa defaultOffset))") auto
  define p1 where "p1 = (if err \<noteq> None \<or> limit0 \<le> 0 \<or> limit0 > maxLimit
      then (defaultLimit,
            srvlog WarnLevel
             (''Invalid limit value '' @ CHR 0x27 # DefaultQuery q ''limit'' (Itoa defaultLimit) @
              CHR 0x27 # '', using default '' @ Itoa defaultLimit) s)
      else (limit0, s))"
  define p2 where "p2 = (if err1 \<noteq> None \<or> offset0 < 0
      then (defaultOffset,
            srvlog WarnLevel
             (''Invalid offset value '' @ CHR 0x27 # DefaultQuery q ''offset'' (Itoa defaultOffset) @
              CHR 0x27 # '', using default '' @ Itoa defaultOffset) (snd p1))
      else (offset0, snd p1))"
  have f1: "fst p1 = asked_limit q"
    using limit_used [OF l] by (auto simp: p1_def split: if_splits)
  have f2: "fst p2 = (if asked_offset q < 2 ^ 63 then asked_offset q else 0)"
    using offset_used [OF off] by (auto simp: p2_def split: if_splits)
  have st1: "Server.store (snd p1) = Server.store s" by (simp add: p1_def)
  have st2: "Server.store (snd p2) = Server.store s" by (simp add: p2_def st1)
  have "getCallsHandler s q =
       (case p1 of (limit, s1) \<Rightarrow>
          case (if err1 \<noteq> None \<or> offset0 < 0
                then (defaultOffset,
                      srvlog WarnLevel
                       (''Invalid offset value '' @ CHR 0x27 # DefaultQuery q ''offset'' (Itoa defaultOffset) @
                        CHR 0x27 # '', using default '' @ Itoa defaultOffset) s1)
                else (offset0, s1)) of
            (offset, s2) \<Rightarrow>
              case GetCalls (Server.store s2) limit offset of
                (st, calls, err2) \<Rightarrow>
                  if err2 \<noteq> None
                  then (srvlog ErrorLevel ''Error retrieving calls from store'' (s2\<lparr>Server.store := st\<rparr>),
                        \<lparr>code = 500, body = JSONObject [(''error'', ''Failed to retrieve calls'')]\<rparr>)
                  else (s2\<lparr>Server.store := st\<rparr>,
                        \<lparr>code = 200,
                         body = json_Marshal_calls (if calls = NilSlice then Slice [] else calls)\<rparr>))"
    unfolding getCallsHandler_def Let_def l off p1_def by (simp only: prod.case)
  also have "\<dots> =
       (case GetCalls (Server.store (snd p2)) (fst p1) (fst p2) of
          (st, calls, err2) \<Rightarrow>
            if err2 \<noteq> None
            then (srvlog ErrorLevel ''Error retrieving calls from store'' ((snd p2)\<lparr>Server.store := st\<rparr>),
                  \<lparr>code = 500, body = JSONObject [(''error'', ''Failed to retrieve calls'')]\<rparr>)
            else ((snd p2)\<lparr>Server.store := st\<rparr>,
                  \<lparr>code = 200,
                   body = json_Marshal_calls (if calls = NilSlice then Slice [] else calls)\<rparr>))"
    unfolding p2_def by (cases p1) (simp only: prod.case fst_conv snd_conv split: if_split prod.split, simp)
  finally have "getCallsHandler s q =
       (case GetCalls (Server.store s) (asked_limit q)
               (if asked_offset q < 2 ^ 63 then asked_offset q else 0) of
          (st, calls, err2) \<Rightarrow>
            if err2 \<noteq> None
            then (srvlog ErrorLevel ''Error retrieving calls from store'' ((snd p2)\<lparr>Server.store := st\<rparr>),
                  \<lparr>code = 500, body = JSONObject [(''error'', ''Failed to retrieve calls'')]\<rparr>)
            else ((snd p2)\<lparr>Server.store := st\<rparr>,
                  \<lparr>code = 200,
                   body = json_Marshal_calls (if calls = NilSlice then Slice [] else calls)\<rparr>))"
    unfolding f1 f2 st2 .
  with st2 show ?thesis by blast
qed


lemma journal_GetCalls:
  "journal (db (fst (GetCalls st limit offset))) = journal (db st) @ [SelectCalls limit offset]"
  by (simp add: GetCalls_def pool_select_def slog_def Let_def split: option.splits)

lemma getCallsHandler_journal:
  "journal (db (Server.store (fst (getCallsHandler s q)))) =
     journal (db (Server.store s)) @
       [SelectCalls (asked_limit q) (if asked_offset q < 2 ^ 63 then asked_offset q else 0)]"
proof -
  define off where "off = (if asked_offset q < 2 ^ 63 then asked_offset q else 0)"
  obtain st calls err2 where g: "GetCalls (Server.store s) (asked_limit q) off = (st, calls, err2)"
    by (cases "GetCalls (Server.store s) (asked_limit q) off") auto
  from getCallsHandler_GetCalls [of s q] obtain s2 where
    h: "getCallsHandler s q =
       (if err2 \<noteq> None
        then (srvlog ErrorLevel ''Error retrieving calls from store'' (s2\<lparr>Server.store := st\<rparr>),
              \<lparr>code = 500, body = JSONObject [(''error'', ''Failed to retrieve calls'')]\<rparr>)
        else (s2\<lparr>Server.store := st\<rparr>,
              \<lparr>code = 200,
               body = json_Marshal_calls (if calls = NilSlice then Slice [] else calls)\<rparr>))"
    unfolding off_def [symmetric] g by auto
  have "Server.store (fst (getCallsHandler s q)) = st"
    unfolding h by simp
  also have "st = fst (GetCalls (Server.store s) (asked_limit q) off)" by (simp add: g)
  finally show ?thesis unfolding off_def by (simp only: journal_GetCalls)
qed

lemma getCallsHandler_response:
  assumes "GetCalls (Server.store s) (asked_limit q)
             (if asked_offset q < 2 ^ 63 then asked_offset q else 0) = (st, calls, None)"
  shows "snd (getCallsHandler s q) =
           \<lparr>code = 200, body = JSONArray (case calls of NilSlice \<Rightarrow> [] | Slice cs \<Rightarrow> cs)\<rparr>"
proof -
  from getCallsHandler_GetCalls [of s q] assms
  have "snd (getCallsHandler s q) =
          \<lparr>code = 200, body = json_Marshal_calls (if calls = NilSlice then Slice [] else calls)\<rparr>"
    by auto
  then show ?thesis by (cases calls) simp_all
qed

lemma foldl_append_slice:
  "foldl append_slice (Slice xs) rs = Slice (xs @ rs)"
  by (induction rs arbitrary: xs) simp_all

lemma foldl_append_slice_Nil:
  "foldl append_slice NilSlice rs = (if rs = [] then NilSlice else Slice rs)"
  by (cases rs) (simp_all add: foldl_append_slice)

text \<open>
  Claim C8, as amended. The limit handed to storage is the integer the \<^verbatim>\<open>limit\<close>
  parameter is when it lies in \<open>[1, 100]\<close>, and 10 when the parameter is absent, not an
  integer literal, zero or negative, or greater than 100. The offset handed to storage is
  the integer the \<^verbatim>\<open>offset\<close> parameter is when it is not negative and fits \<^verbatim>\<open>int\<close>, that
  is, lies below \<open>2\<^sup>6\<^sup>3\<close>; it is 0 otherwise.
\<close>

theorem C8_paging_passed_to_storage:
  "journal (db (Server.store (fst (getCallsHandler s q)))) =
     journal (db (Server.store s)) @
       [SelectCalls (asked_limit q) (if asked_offset q < 2 ^ 63 then asked_offset q else 0)]"
  by (rule getCallsHandler_journal)

lemmas spec_eval = asked_limit_def asked_offset_def query_int_def int_literal_def decimal_def
  decimal_step_def is_digit_def digit_val_def

theorem C8_paging_passed_to_storage_witness:
  "asked_limit [''limit'' \<mapsto> ''25'', ''offset'' \<mapsto> ''40''] = 25
   \<and> asked_offset [''limit'' \<mapsto> ''25'', ''offset'' \<mapsto> ''40''] = 40
   \<and> journal (db (Server.store (fst (getCallsHandler fresh_Server
         [''limit'' \<mapsto> ''25'', ''offset'' \<mapsto> ''40''])))) = [SelectCalls 25 40]
   \<and> journal (db (Server.store (fst (getCallsHandler fresh_Server
         [''limit'' \<mapsto> ''101'', ''offset'' \<mapsto> ''-1''])))) = [SelectCalls 10 0]
   \<and> journal (db (Server.store (fst (getCallsHandler fresh_Server Map.empty)))) =
       [SelectCalls 10 0]"
proof -
  have j: "journal (db (Server.store fresh_Server)) = []"
    by (simp add: fresh_Server_def NewStore_def empty_Pool_def)
  have a: "asked_limit [''limit'' \<mapsto> ''25'', ''offset'' \<mapsto> ''40''] = 25"
    "asked_offset [''limit'' \<mapsto> ''25'', ''offset'' \<mapsto> ''40''] = 40"
    by (simp_all add: spec_eval)
  have b: "asked_limit [''limit'' \<mapsto> ''101'', ''offset'' \<mapsto> ''-1''] = 10"
    "asked_offset [''limit'' \<mapsto> ''101'', ''offset'' \<mapsto> ''-1''] = 0"
    by (simp_all add: spec_eval)
  have c: "asked_limit Map.empty = 10" "asked_offset Map.empty = 0"
    by (simp_all add: spec_eval)
  show ?thesis
    using C8_paging_passed_to_storage [of fresh_Server "[''limit'' \<mapsto> ''25'', ''offset'' \<mapsto> ''40'']"]
      C8_paging_passed_to_storage [of fresh_Server "[''limit'' \<mapsto> ''101'', ''offset'' \<mapsto> ''-1'']"]
      C8_paging_passed_to_storage [of fresh_Server Map.empty]
    by (simp add: j a b c)
qed

text \<open>
  The offset \<open>2\<^sup>6\<^sup>3\<close> is a non-negative integer, and \<^verbatim>\<open>strconv.Atoi\<close> refuses it as
  out of range: the handler asks storage for offset 0, not for the parameter's value.
\<close>

theorem C8_offset_out_of_range_counterexample:
  "query_int [''offset'' \<mapsto> ''9223372036854775808''] ''offset'' = Some 9223372036854775808
   \<and> asked_offset [''offset'' \<mapsto> ''9223372036854775808''] = 9223372036854775808
   \<and> journal (db (Server.store (fst (getCallsHandler fresh_Server
         [''offset'' \<mapsto> ''9223372036854775808''])))) = [SelectCalls 10 0]
   \<and> journal (db (Server.store (fst (getCallsHandler fresh_Server
         [''offset'' \<mapsto> ''9223372036854775808''])))) \<noteq>
       [SelectCalls (asked_limit [''offset'' \<mapsto> ''9223372036854775808''])
          (asked_offset [''offset'' \<mapsto> ''9223372036854775808''])]"
proof -
  have j: "journal (db (Server.store fresh_Server)) = []"
    by (simp add: fresh_Server_def NewStore_def empty_Pool_def)
  have a: "query_int [''offset'' \<mapsto> ''9223372036854775808''] ''offset'' = Some 9223372036854775808"
    by (simp add: spec_eval)
  have b: "asked_offset [''offset'' \<mapsto> ''9223372036854775808''] = 9223372036854775808"
    by (simp add: asked_offset_def a)
  have c: "asked_limit [''offset'' \<mapsto> ''9223372036854775808''] = 10"
    by (simp add: asked_limit_def query_int_def)
  show ?thesis
    using getCallsHandler_journal [of fresh_Server "[''offset'' \<mapsto> ''9223372036854775808'']"]
    by (simp add: j a b c)
qed

text \<open>
  Claim C9. When \<^verbatim>\<open>GetCalls\<close> returns without an error, the handler answers with
  status 200 and a JSON array, never \<^verbatim>\<open>null\<close>: the array of the calls returned, and the
  empty array when the store returned the \<^verbatim>\<open>nil\<close> slice.
\<close>

theorem C9_success_body_is_a_list:
  assumes "GetCalls (Server.store s) (asked_limit q)
             (if asked_offset q < 2 ^ 63 then asked_offset q else 0) = (st, calls, None)"
  shows "code (snd (getCallsHandler s q)) = 200
       \<and> body (snd (getCallsHandler s q)) \<noteq> JSONNull
       \<and> body (snd (getCallsHandler s q)) =
           JSONArray (case calls of NilSlice \<Rightarrow> [] | Slice cs \<Rightarrow> cs)"
  by (simp add: getCallsHandler_response [OF assms])

theorem C9_success_body_is_a_list_witness:
  "GetCalls (Server.store fresh_Server) (asked_limit Map.empty)
      (if asked_offset Map.empty < 2 ^ 63 then asked_offset Map.empty else 0) =
     (fst (GetCalls (Server.store fresh_Server) 10 0), NilSlice, None)
   \<and> snd (getCallsHandler fresh_Server Map.empty) = \<lparr>code = 200, body = JSONArray []\<rparr>"
proof -
  have c: "asked_limit Map.empty = 10" "asked_offset Map.empty = 0"
    by (simp_all add: spec_eval)
  have g: "GetCalls (Server.store fresh_Server) (asked_limit Map.empty)
      (if asked_offset Map.empty < 2 ^ 63 then asked_offset Map.empty else 0) =
     (fst (GetCalls (Server.store fresh_Server) 10 0), NilSlice, None)"
    by (simp add: c GetCalls_def pool_select_def fresh_Server_def NewStore_def empty_Pool_def
        order_by_start_desc_def slog_def Let_def)
  show ?thesis
    using g C9_success_body_is_a_list [OF g]
    by (cases "snd (getCallsHandler fresh_Server Map.empty)") simp
qed

end
